theory Spec2Isabelle
  imports Main "HOL-Library.Code_Target_Nat"
begin

section \<open>JavaScript strings\<close>

text \<open>
  A JavaScript string is a sequence of UTF-16 code units. A code unit is modelled as a
  natural number and a string as a list of them, so that the check mark of the preview's
  checkbox token (U+2713) and the line separators U+2028 and U+2029 are single elements,
  as they are for \<^verbatim>\<open>String.prototype.replace\<close>. \<open>u16\<close> embeds an
  ASCII literal.
\<close>

type_synonym jsstring = "nat list"

definition u16 :: "string \<Rightarrow> jsstring" where
  "u16 s = map of_char s"

text \<open>
  Isabelle string literals cannot hold a backslash. In the text of a regular expression
  the percent sign is written for it; none of the patterns of the program contains a
  percent sign.
\<close>

definition rx :: "string \<Rightarrow> jsstring" where
  "rx s = map (\<lambda>c. if c = CHR ''%'' then 92 else of_char c) s"

definition LineTerminator :: "nat \<Rightarrow> bool" where
  "LineTerminator c \<longleftrightarrow> c = 10 \<or> c = 13 \<or> c = 8232 \<or> c = 8233"

definition WhiteSpace :: "nat \<Rightarrow> bool" where
  "WhiteSpace c \<longleftrightarrow>
     c = 9 \<or> c = 11 \<or> c = 12 \<or> c = 32 \<or> c = 160 \<or> c = 5760 \<or> (8192 \<le> c \<and> c \<le> 8202)
     \<or> c = 8239 \<or> c = 8287 \<or> c = 12288 \<or> c = 65279"

definition is_space :: "nat \<Rightarrow> bool" where
  "is_space c \<longleftrightarrow> WhiteSpace c \<or> LineTerminator c"

definition is_digit :: "nat \<Rightarrow> bool" where
  "is_digit c \<longleftrightarrow> 48 \<le> c \<and> c \<le> 57"

definition is_word :: "nat \<Rightarrow> bool" where
  "is_word c \<longleftrightarrow> (97 \<le> c \<and> c \<le> 122) \<or> (65 \<le> c \<and> c \<le> 90) \<or> is_digit c \<or> c = 95"

text \<open>\<^verbatim>\<open>String.prototype.trim\<close>: white space and line terminators are removed at both ends.\<close>

definition trim :: "jsstring \<Rightarrow> jsstring" where
  "trim s = rev (dropWhile is_space (rev (dropWhile is_space s)))"

section \<open>Regular expressions\<close>

subsection \<open>Abstract syntax\<close>

datatype cesc = Digit | Word | Space

datatype citem = CChar nat | CRange nat nat | CEsc cesc | CNotEsc cesc

datatype quant = ZeroOrMore | OneOrMore | ZeroOrOne

datatype regex =
    Eps
  | Lit nat
  | Dot
  | Cls bool "citem list"
  | Bol
  | Eol
  | Seq regex regex
  | Alt regex regex
  | Rep quant bool regex
  | Grp nat regex

text \<open>
  The outcome of \<^verbatim>\<open>new RegExp(source)\<close>: the compiled pattern, or the
  \<^verbatim>\<open>SyntaxError\<close> that the constructor throws. \<open>Unmodelled\<close> is not an
  exception: it marks pattern syntax that this development does not interpret (bounded
  quantifiers in braces, look-around, back references, word boundaries, control,
  hexadecimal and octal escapes). For such a source the constructor may well return a
  pattern; the development then gives no answer, and every function below that depends
  on the pattern gives none either.
\<close>

datatype failure = SyntaxError | Unmodelled

subsection \<open>Lexical analysis of a pattern\<close>

datatype ctoken = CTDash | CTAtom citem

datatype token =
    TChar nat | TDot | TBol | TEol | TBar | TOpen | TOpenNC | TClose
  | TStar | TPlus | TQuest | TCls bool "citem list"

text \<open>What follows a backslash: a class escape, a single character, or a failure.\<close>

definition escape :: "bool \<Rightarrow> nat \<Rightarrow> jsstring \<Rightarrow> failure + citem" where
  "escape in_class d ds =
     (if d = 100 then Inr (CEsc Digit) else if d = 68 then Inr (CNotEsc Digit)
      else if d = 119 then Inr (CEsc Word) else if d = 87 then Inr (CNotEsc Word)
      else if d = 115 then Inr (CEsc Space) else if d = 83 then Inr (CNotEsc Space)
      else if d = 116 then Inr (CChar 9) else if d = 110 then Inr (CChar 10)
      else if d = 118 then Inr (CChar 11) else if d = 102 then Inr (CChar 12)
      else if d = 114 then Inr (CChar 13)
      else if d = 48 then
        (case ds of [] \<Rightarrow> Inr (CChar 0)
         | e # _ \<Rightarrow> if is_digit e then Inl Unmodelled else Inr (CChar 0))
      else if is_digit d then Inl Unmodelled
      else if d = 98 then (if in_class then Inr (CChar 8) else Inl Unmodelled)
      else if d = 66 then (if in_class then Inr (CChar 66) else Inl Unmodelled)
      else if d = 99 \<or> d = 120 \<or> d = 117 \<or> d = 107 then Inl Unmodelled
      else Inr (CChar d))"

text \<open>
  The ranges of a character class. \<^verbatim>\<open>A-B\<close> is a range when both ends are single
  characters (a \<^verbatim>\<open>SyntaxError\<close> when out of order); when an end is a class escape
  the class holds both ends and the dash. A dash that is first or last is a character.
\<close>

definition citem_of :: "ctoken \<Rightarrow> citem" where
  "citem_of t = (case t of CTDash \<Rightarrow> CChar 45 | CTAtom i \<Rightarrow> i)"

fun class_ranges :: "ctoken list \<Rightarrow> failure + citem list" where
  "class_ranges (a # CTDash # b # ts) =
     (case class_ranges ts of
        Inl e \<Rightarrow> Inl e
      | Inr is \<Rightarrow>
         (case (citem_of a, citem_of b) of
            (CChar x, CChar y) \<Rightarrow> if y < x then Inl SyntaxError else Inr (CRange x y # is)
          | (i, j) \<Rightarrow> Inr (i # CChar 45 # j # is)))"
| "class_ranges (a # ts) =
     (case class_ranges ts of Inl e \<Rightarrow> Inl e | Inr is \<Rightarrow> Inr (citem_of a # is))"
| "class_ranges [] = Inr []"

text \<open>
  The lexer. Its second argument is \<open>None\<close> outside a character class and holds the
  negation flag and the atoms read so far (latest first) inside one.
\<close>

fun lex :: "(bool \<times> ctoken list) option \<Rightarrow> jsstring \<Rightarrow> failure + token list" where
  "lex None [] = Inr []"
| "lex (Some _) [] = Inl SyntaxError"
| "lex None (c # cs) =
     (if c = 92 then
        (case cs of
           [] \<Rightarrow> Inl SyntaxError
         | d # ds \<Rightarrow>
            (case escape False d ds of
               Inl e \<Rightarrow> Inl e
             | Inr i \<Rightarrow>
                (case lex None ds of
                   Inl e \<Rightarrow> Inl e
                 | Inr ts \<Rightarrow> Inr ((case i of CChar x \<Rightarrow> TChar x | _ \<Rightarrow> TCls False [i]) # ts))))
      else if c = 91 then
        (case cs of
           d # ds \<Rightarrow> if d = 94 then lex (Some (True, [])) ds else lex (Some (False, [])) cs
         | [] \<Rightarrow> Inl SyntaxError)
      else if c = 40 then
        (case cs of
           d # ds \<Rightarrow>
             if d = 63 then
               (case ds of
                  e # es \<Rightarrow>
                    if e = 58 then
                      (case lex None es of Inl x \<Rightarrow> Inl x | Inr ts \<Rightarrow> Inr (TOpenNC # ts))
                    else Inl Unmodelled
                | [] \<Rightarrow> Inl SyntaxError)
             else (case lex None cs of Inl x \<Rightarrow> Inl x | Inr ts \<Rightarrow> Inr (TOpen # ts))
         | [] \<Rightarrow> Inl SyntaxError)
      else if c = 123 \<and> (case cs of d # _ \<Rightarrow> is_digit d | [] \<Rightarrow> False) then Inl Unmodelled
      else
        (case lex None cs of
           Inl e \<Rightarrow> Inl e
         | Inr ts \<Rightarrow>
            Inr ((if c = 46 then TDot else if c = 94 then TBol else if c = 36 then TEol
                  else if c = 124 then TBar else if c = 41 then TClose
                  else if c = 42 then TStar else if c = 43 then TPlus
                  else if c = 63 then TQuest else TChar c) # ts)))"
| "lex (Some (neg, acc)) (c # cs) =
     (if c = 93 then
        (case class_ranges (rev acc) of
           Inl e \<Rightarrow> Inl e
         | Inr is \<Rightarrow>
            (case lex None cs of Inl e \<Rightarrow> Inl e | Inr ts \<Rightarrow> Inr (TCls neg is # ts)))
      else if c = 92 then
        (case cs of
           [] \<Rightarrow> Inl SyntaxError
         | d # ds \<Rightarrow>
            (case escape True d ds of
               Inl e \<Rightarrow> Inl e
             | Inr i \<Rightarrow> lex (Some (neg, CTAtom i # acc)) ds))
      else if c = 45 then lex (Some (neg, CTDash # acc)) cs
      else lex (Some (neg, CTAtom (CChar c) # acc)) cs)"

subsection \<open>Parsing\<close>

text \<open>
  One pass over the tokens with a stack of open groups. A frame holds the finished
  alternatives and the terms of the current alternative (latest first) of one group, and
  the number of the group when it captures. Groups are numbered by their opening
  parenthesis, from 1.
\<close>

datatype frame = Frame (alts: "regex list") (cur: "regex list") (grp: "nat option")

fun seq_of :: "regex list \<Rightarrow> regex" where
  "seq_of [] = Eps"
| "seq_of (t # ts) = Seq t (seq_of ts)"

fun alt_of :: "regex list \<Rightarrow> regex" where
  "alt_of [] = Eps"
| "alt_of [a] = a"
| "alt_of (a # as) = Alt a (alt_of as)"

definition close_frame :: "frame \<Rightarrow> regex" where
  "close_frame f =
     (let r = alt_of (rev (seq_of (rev (cur f)) # alts f))
      in case grp f of None \<Rightarrow> r | Some i \<Rightarrow> Grp i r)"

definition push :: "regex \<Rightarrow> frame \<Rightarrow> frame" where
  "push t f = Frame (alts f) (t # cur f) (grp f)"

text \<open>
  A quantifier applies to the term that precedes it; \<open>quantify\<close> is given whether that term can
  be repeated (\<open>q\<close>) and whether the quantifier is greedy.
\<close>

definition quantify :: "quant \<Rightarrow> bool \<Rightarrow> bool \<Rightarrow> frame \<Rightarrow> failure + frame" where
  "quantify k greedy q f =
     (case cur f of
        [] \<Rightarrow> Inl SyntaxError
      | a # as \<Rightarrow> if q then Inr (Frame (alts f) (Rep k greedy a # as) (grp f)) else Inl SyntaxError)"

definition quant_of :: "token \<Rightarrow> quant option" where
  "quant_of t = (case t of TStar \<Rightarrow> Some ZeroOrMore | TPlus \<Rightarrow> Some OneOrMore
                 | TQuest \<Rightarrow> Some ZeroOrOne | _ \<Rightarrow> None)"

definition lazy_next :: "token list \<Rightarrow> bool" where
  "lazy_next ts = (case ts of t # _ \<Rightarrow> t = TQuest | [] \<Rightarrow> False)"

function parse :: "frame \<Rightarrow> frame list \<Rightarrow> nat \<Rightarrow> bool \<Rightarrow> token list \<Rightarrow> failure + regex" where
  "parse f stk n q [] = (if stk = [] then Inr (close_frame f) else Inl SyntaxError)"
| "parse f stk n q (t # ts) =
     (case quant_of t of
        Some k \<Rightarrow>
          (case quantify k (\<not> lazy_next ts) q f of
             Inl e \<Rightarrow> Inl e
           | Inr f' \<Rightarrow> parse f' stk n False (if lazy_next ts then tl ts else ts))
      | None \<Rightarrow>
          (case t of
             TChar c \<Rightarrow> parse (push (Lit c) f) stk n True ts
           | TDot \<Rightarrow> parse (push Dot f) stk n True ts
           | TCls neg is \<Rightarrow> parse (push (Cls neg is) f) stk n True ts
           | TBol \<Rightarrow> parse (push Bol f) stk n False ts
           | TEol \<Rightarrow> parse (push Eol f) stk n False ts
           | TBar \<Rightarrow> parse (Frame (seq_of (rev (cur f)) # alts f) [] (grp f)) stk n False ts
           | TOpen \<Rightarrow> parse (Frame [] [] (Some (Suc n))) (f # stk) (Suc n) False ts
           | TOpenNC \<Rightarrow> parse (Frame [] [] None) (f # stk) n False ts
           | TClose \<Rightarrow>
               (case stk of
                  [] \<Rightarrow> Inl SyntaxError
                | g # stk' \<Rightarrow> parse (push (close_frame f) g) stk' n True ts)
           | _ \<Rightarrow> Inl SyntaxError))"
  by pat_completeness auto
termination
  by (relation "measure (\<lambda>(f, stk, n, q, ts). length ts)") auto

text \<open>\<^verbatim>\<open>new RegExp(source, flags)\<close>: the flags do not change how a pattern is read.\<close>

definition RegExp :: "jsstring \<Rightarrow> failure + regex" where
  "RegExp src =
     (case lex None src of
        Inl e \<Rightarrow> Inl e
      | Inr ts \<Rightarrow> parse (Frame [] [] None) [] 0 False ts)"

record flags =
  multiline :: bool
  dotAll :: bool

text \<open>Every pattern of the program has the flag \<^verbatim>\<open>g\<close>; some add \<^verbatim>\<open>m\<close> or \<^verbatim>\<open>s\<close>.\<close>

definition flags_g :: flags where
  "flags_g = \<lparr>multiline = False, dotAll = False\<rparr>"

definition flags_gm :: flags where
  "flags_gm = \<lparr>multiline = True, dotAll = False\<rparr>"

definition flags_gs :: flags where
  "flags_gs = \<lparr>multiline = False, dotAll = True\<rparr>"

subsection \<open>Matching\<close>

text \<open>
  A matcher state is a position in the input: the code unit left of it (none at the
  start), the input from it on, and the captures made so far. The matcher returns the
  states in which a match of the pattern can end, in the order in which a backtracking
  matcher tries them; the first one is the match that \<^verbatim>\<open>exec\<close> reports.
\<close>

datatype mstate = MState (prevc: "nat option") (rest: jsstring) (caps: "(nat \<times> jsstring) list")

fun step_char :: "(nat \<Rightarrow> bool) \<Rightarrow> mstate \<Rightarrow> mstate list" where
  "step_char P (MState p [] cs) = []"
| "step_char P (MState p (x # xs) cs) = (if P x then [MState (Some x) xs cs] else [])"

fun citem_has :: "citem \<Rightarrow> nat \<Rightarrow> bool" where
  "citem_has (CChar x) c = (c = x)"
| "citem_has (CRange x y) c = (x \<le> c \<and> c \<le> y)"
| "citem_has (CEsc Digit) c = is_digit c"
| "citem_has (CEsc Word) c = is_word c"
| "citem_has (CEsc Space) c = is_space c"
| "citem_has (CNotEsc Digit) c = (\<not> is_digit c)"
| "citem_has (CNotEsc Word) c = (\<not> is_word c)"
| "citem_has (CNotEsc Space) c = (\<not> is_space c)"

definition cls_has :: "bool \<Rightarrow> citem list \<Rightarrow> nat \<Rightarrow> bool" where
  "cls_has neg is c = (neg \<noteq> list_ex (\<lambda>i. citem_has i c) is)"

fun groups_of :: "regex \<Rightarrow> nat list" where
  "groups_of (Seq a b) = groups_of a @ groups_of b"
| "groups_of (Alt a b) = groups_of a @ groups_of b"
| "groups_of (Rep k gr r) = groups_of r"
| "groups_of (Grp i r) = i # groups_of r"
| "groups_of _ = []"

text \<open>Each iteration of a quantified term starts with the captures of its groups undefined.\<close>

definition reset :: "regex \<Rightarrow> mstate \<Rightarrow> mstate" where
  "reset r st = MState (prevc st) (rest st) (filter (\<lambda>(i, _). i \<notin> set (groups_of r)) (caps st))"

definition consumed :: "mstate \<Rightarrow> mstate \<Rightarrow> jsstring" where
  "consumed st st' = take (length (rest st) - length (rest st')) (rest st)"

definition capture :: "nat \<Rightarrow> mstate \<Rightarrow> mstate \<Rightarrow> mstate" where
  "capture i st st' =
     MState (prevc st') (rest st') ((i, consumed st st') # filter (\<lambda>(j, _). j \<noteq> i) (caps st'))"

text \<open>An iteration that matched the empty string is rejected.\<close>

definition advances :: "mstate \<Rightarrow> mstate \<Rightarrow> bool" where
  "advances st st' \<longleftrightarrow> length (rest st') < length (rest st)"

fun rk :: "regex \<Rightarrow> nat" where
  "rk (Seq a b) = Suc (rk a + rk b)"
| "rk (Alt a b) = Suc (rk a + rk b)"
| "rk (Rep k gr r) = (if k = OneOrMore then Suc (Suc (rk r)) else Suc (rk r))"
| "rk (Grp i r) = Suc (rk r)"
| "rk _ = 0"

function m :: "flags \<Rightarrow> regex \<Rightarrow> mstate \<Rightarrow> mstate list" where
  "m fl Eps st = [st]"
| "m fl (Lit c) st = step_char (\<lambda>x. x = c) st"
| "m fl Dot st = step_char (\<lambda>x. dotAll fl \<or> \<not> LineTerminator x) st"
| "m fl (Cls neg is) st = step_char (cls_has neg is) st"
| "m fl Bol st =
     (case prevc st of
        None \<Rightarrow> [st]
      | Some p \<Rightarrow> if multiline fl \<and> LineTerminator p then [st] else [])"
| "m fl Eol st =
     (case rest st of
        [] \<Rightarrow> [st]
      | x # _ \<Rightarrow> if multiline fl \<and> LineTerminator x then [st] else [])"
| "m fl (Seq a b) st = concat (map (m fl b) (m fl a st))"
| "m fl (Alt a b) st = m fl a st @ m fl b st"
| "m fl (Grp i r) st = map (capture i st) (m fl r st)"
| "m fl (Rep OneOrMore gr r) st =
     concat (map (m fl (Rep ZeroOrMore gr r)) (m fl r (reset r st)))"
| "m fl (Rep ZeroOrMore gr r) st =
     (let more = concat (map (m fl (Rep ZeroOrMore gr r))
                          (filter (advances st) (m fl r (reset r st))))
      in if gr then more @ [st] else st # more)"
| "m fl (Rep ZeroOrOne gr r) st =
     (let more = filter (advances st) (m fl r (reset r st))
      in if gr then more @ [st] else st # more)"
  by pat_completeness auto
termination
  by (relation "inv_image (less_than <*lex*> less_than) (\<lambda>(fl, r, st). (rk r, length (rest st)))")
     (auto simp: advances_def)

text \<open>
  A match attempt at one position: the length of the match and its captures.
\<close>

definition match_here :: "flags \<Rightarrow> regex \<Rightarrow> nat option \<Rightarrow> jsstring \<Rightarrow> (nat \<times> (nat \<times> jsstring) list) option" where
  "match_here fl r p s =
     (case m fl r (MState p s []) of
        [] \<Rightarrow> None
      | st # _ \<Rightarrow> Some (length s - length (rest st), caps st))"

subsection \<open>Replacement\<close>

text \<open>
  The replacement text of \<^verbatim>\<open>replace\<close> is a template: \<^verbatim>\<open>$$\<close> is a dollar
  sign, \<^verbatim>\<open>$&\<close> the match, \<^verbatim>\<open>$`\<close> and \<^verbatim>\<open>$'\<close> the input left and right of
  the match, \<^verbatim>\<open>$n\<close> and \<^verbatim>\<open>$nn\<close> capture number \<open>n\<close> (empty when the group
  did not take part) if the pattern has that many groups; any other dollar sign stands for
  itself.
\<close>

definition cap_text :: "(nat \<times> jsstring) list \<Rightarrow> nat \<Rightarrow> jsstring" where
  "cap_text cs i = (case map_of cs i of None \<Rightarrow> [] | Some t \<Rightarrow> t)"

definition digit_val :: "nat \<Rightarrow> nat" where
  "digit_val c = c - 48"

fun GetSubstitution ::
  "jsstring \<Rightarrow> nat \<Rightarrow> jsstring \<Rightarrow> jsstring \<Rightarrow> jsstring \<Rightarrow> (nat \<times> jsstring) list \<Rightarrow> jsstring" where
  "GetSubstitution [] ng matched pre post cs = []"
| "GetSubstitution (c # t) ng matched pre post cs =
     (if c \<noteq> 36 then c # GetSubstitution t ng matched pre post cs
      else
        (case t of
           [] \<Rightarrow> [36]
         | d # t' \<Rightarrow>
            if d = 36 then 36 # GetSubstitution t' ng matched pre post cs
            else if d = 38 then matched @ GetSubstitution t' ng matched pre post cs
            else if d = 96 then pre @ GetSubstitution t' ng matched pre post cs
            else if d = 39 then post @ GetSubstitution t' ng matched pre post cs
            else if is_digit d then
              (case t' of
                 [] \<Rightarrow>
                   if 1 \<le> digit_val d \<and> digit_val d \<le> ng then cap_text cs (digit_val d)
                   else [36, d]
               | e # t'' \<Rightarrow>
                   if is_digit e \<and> 10 * digit_val d + digit_val e \<le> ng then
                     (if 1 \<le> 10 * digit_val d + digit_val e
                      then cap_text cs (10 * digit_val d + digit_val e)
                           @ GetSubstitution t'' ng matched pre post cs
                      else [36, d, e] @ GetSubstitution t'' ng matched pre post cs)
                   else if 1 \<le> digit_val d \<and> digit_val d \<le> ng
                     then cap_text cs (digit_val d) @ GetSubstitution t' ng matched pre post cs
                   else [36, d] @ GetSubstitution t' ng matched pre post cs)
            else 36 # GetSubstitution t ng matched pre post cs))"

definition last_unit :: "jsstring \<Rightarrow> nat option" where
  "last_unit pre = (case pre of [] \<Rightarrow> None | p # _ \<Rightarrow> Some p)"

text \<open>
  \<^verbatim>\<open>String.prototype.replace\<close> with a global pattern: the input is scanned from
  left to right, every match found is replaced by the expansion of the template, and the
  scan goes on behind the match (one code unit further when the match is empty). The text
  put in is not scanned again. \<open>pre\<close> is the input already passed, latest first.
\<close>

function replace_from :: "flags \<Rightarrow> regex \<Rightarrow> jsstring \<Rightarrow> jsstring \<Rightarrow> jsstring \<Rightarrow> jsstring" where
  "replace_from fl r tmpl pre s =
     (case match_here fl r (last_unit pre) s of
        None \<Rightarrow>
          (case s of [] \<Rightarrow> [] | x # xs \<Rightarrow> x # replace_from fl r tmpl (x # pre) xs)
      | Some (n, cs) \<Rightarrow>
          GetSubstitution tmpl (length (groups_of r)) (take n s) (rev pre) (drop n s) cs @
          (case s of
             [] \<Rightarrow> []
           | x # xs \<Rightarrow>
               if n = 0 then x # replace_from fl r tmpl (x # pre) xs
               else replace_from fl r tmpl (rev (take n s) @ pre) (drop n s)))"
  by pat_completeness auto
termination
  by (relation "measure (\<lambda>(fl, r, tmpl, pre, s). length s)") auto

definition js_replace :: "flags \<Rightarrow> regex \<Rightarrow> jsstring \<Rightarrow> jsstring \<Rightarrow> jsstring" where
  "js_replace fl r tmpl s = replace_from fl r tmpl [] s"

text \<open>
  \<^verbatim>\<open>s.replace(pattern, '')\<close> with a string pattern: the first occurrence of the
  pattern is removed.
\<close>

definition starts_with :: "jsstring \<Rightarrow> jsstring \<Rightarrow> bool" where
  "starts_with p s \<longleftrightarrow> take (length p) s = p"

fun remove_first :: "jsstring \<Rightarrow> jsstring \<Rightarrow> jsstring" where
  "remove_first p [] = []"
| "remove_first p (x # xs) =
     (if starts_with p (x # xs) then drop (length p) (x # xs) else x # remove_first p xs)"

section \<open>Objects and form controls\<close>

text \<open>
  The values stored in \<^verbatim>\<open>fieldValues\<close> are strings and, on the submit path,
  booleans. \<^verbatim>\<open>replace\<close> converts its second argument with \<^verbatim>\<open>ToString\<close>.
\<close>

datatype jsval = Str jsstring | Bool bool

definition ToString :: "jsval \<Rightarrow> jsstring" where
  "ToString v = (case v of Str s \<Rightarrow> s | Bool b \<Rightarrow> if b then u16 ''true'' else u16 ''false'')"

text \<open>
  An object literal \<^verbatim>\<open>{}\<close> with its own properties in creation order. Assigning to
  an existing key keeps the key's place; assigning a string or a boolean to
  \<^verbatim>\<open>__proto__\<close> creates no property.
\<close>

type_synonym jsobject = "(jsstring \<times> jsval) list"

fun obj_put :: "jsstring \<Rightarrow> jsval \<Rightarrow> jsobject \<Rightarrow> jsobject" where
  "obj_put k v [] = [(k, v)]"
| "obj_put k v ((k', v') # ps) = (if k' = k then (k', v) # ps else (k', v') # obj_put k v ps)"

definition obj_set :: "jsstring \<Rightarrow> jsval \<Rightarrow> jsobject \<Rightarrow> jsobject" where
  "obj_set k v obj = (if k = u16 ''__proto__'' then obj else obj_put k v obj)"

text \<open>
  \<^verbatim>\<open>Object.entries\<close> lists the keys that are array indices (canonical decimal
  numerals below \<open>2^32 - 1\<close>) first, in ascending order, and then the other keys in
  creation order.
\<close>

definition decimal :: "jsstring \<Rightarrow> nat" where
  "decimal k = foldl (\<lambda>n c. 10 * n + digit_val c) 0 k"

definition array_index :: "jsstring \<Rightarrow> nat option" where
  "array_index k =
     (if k \<noteq> [] \<and> list_all is_digit k \<and> (length k = 1 \<or> hd k \<noteq> 48) \<and> length k \<le> 10
         \<and> decimal k < 4294967295
      then Some (decimal k) else None)"

definition Object_entries :: "jsobject \<Rightarrow> (jsstring \<times> jsval) list" where
  "Object_entries obj =
     sort_key (\<lambda>(k, v). case array_index k of Some n \<Rightarrow> n | None \<Rightarrow> 0)
       (filter (\<lambda>(k, v). array_index k \<noteq> None) obj)
     @ filter (\<lambda>(k, v). array_index k = None) obj"

text \<open>
  A form control of the page: its \<^verbatim>\<open>id\<close>, \<^verbatim>\<open>type\<close>, \<^verbatim>\<open>value\<close> and
  \<^verbatim>\<open>checked\<close> properties and whether it has the \<^verbatim>\<open>required\<close> attribute.
\<close>

record element =
  el_id :: jsstring
  el_type :: jsstring
  el_value :: jsstring
  el_checked :: bool
  el_required :: bool

text \<open>
  \<^verbatim>\<open>document.querySelectorAll('[id^="field-"]')\<close> and
  \<^verbatim>\<open>document.querySelectorAll('[id^="field-"][required]')\<close>, in document order.
\<close>

definition field_elements :: "element list \<Rightarrow> element list" where
  "field_elements els = filter (\<lambda>e. starts_with (u16 ''field-'') (el_id e)) els"

definition required_field_elements :: "element list \<Rightarrow> element list" where
  "required_field_elements els = filter el_required (field_elements els)"

text \<open>\<^verbatim>\<open>field.id.replace('field-', '')\<close>\<close>

definition fieldName :: "element \<Rightarrow> jsstring" where
  "fieldName field = remove_first (u16 ''field-'') (el_id field)"

section \<open>Placeholder substitution\<close>

text \<open>
  The loop of both paths (script.js, lines 541 to 545 and 743 to 747):
  \<^verbatim>\<open>Object.entries(fieldValues).forEach(([key, value]) => {
     const placeholder = new RegExp(`\\{${key}\\}`, 'g');
     body = body.replace(placeholder, value); })\<close>
  The key is put into the pattern as it is. An exception of the constructor ends the loop:
  the result \<open>Inl SyntaxError\<close>. The result \<open>Inl Unmodelled\<close> says that a key
  gave a pattern outside the syntax interpreted here, so that the result is not known.
\<close>

definition placeholder_source :: "jsstring \<Rightarrow> jsstring" where
  "placeholder_source key = rx ''%{'' @ key @ rx ''%}''"

fun replace_placeholders :: "jsstring \<Rightarrow> (jsstring \<times> jsval) list \<Rightarrow> failure + jsstring" where
  "replace_placeholders body [] = Inr body"
| "replace_placeholders body ((key, val) # entries) =
     (case RegExp (placeholder_source key) of
        Inl e \<Rightarrow> Inl e
      | Inr placeholder \<Rightarrow>
          replace_placeholders (js_replace flags_g placeholder (ToString val) body) entries)"

text \<open>The field values of the preview path (script.js, lines 731 to 740).\<close>

definition yes_token :: jsstring where
  "yes_token = 10003 # u16 '' Yes''"

definition no_token :: jsstring where
  "no_token = 10007 # u16 '' No''"

definition preview_fieldValues :: "element list \<Rightarrow> jsobject" where
  "preview_fieldValues els =
     foldl (\<lambda>fieldValues field.
              obj_set (fieldName field)
                (if el_type field = u16 ''checkbox''
                 then Str (if el_checked field then yes_token else no_token)
                 else Str (el_value field))
                fieldValues)
       [] (field_elements els)"

text \<open>The field values of the submit path (script.js, lines 529 to 538).\<close>

definition submit_fieldValues :: "element list \<Rightarrow> jsobject" where
  "submit_fieldValues els =
     foldl (\<lambda>fieldValues field.
              obj_set (fieldName field)
                (if el_type field = u16 ''checkbox''
                 then Bool (el_checked field)
                 else Str (el_value field))
                fieldValues)
       [] (field_elements els)"

definition preview_substitute :: "jsstring \<Rightarrow> element list \<Rightarrow> failure + jsstring" where
  "preview_substitute markdown els =
     replace_placeholders markdown (Object_entries (preview_fieldValues els))"

definition submit_substitute :: "jsstring \<Rightarrow> element list \<Rightarrow> failure + jsstring" where
  "submit_substitute body els =
     replace_placeholders body (Object_entries (submit_fieldValues els))"

section \<open>The markdown preview\<close>

text \<open>
  A rewrite rule is a call \<^verbatim>\<open>.replace(/pattern/flags, 'template')\<close>; a chain of
  calls is a list of rules, applied in order.
\<close>

type_synonym rule = "string \<times> flags \<times> string"

fun rewrite :: "rule list \<Rightarrow> jsstring \<Rightarrow> failure + jsstring" where
  "rewrite [] s = Inr s"
| "rewrite ((pat, fl, tmpl) # rules) s =
     (case RegExp (rx pat) of
        Inl e \<Rightarrow> Inl e
      | Inr r \<Rightarrow> rewrite rules (js_replace fl r (u16 tmpl) s))"

text \<open>
  The chain of script.js, lines 750 to 778, in the groups that its comments name: headers,
  bold and italic, code, links and images, lists, quotes and rules, line breaks and
  paragraphs.
\<close>

definition header_rules :: "rule list" where
  "header_rules =
    [(''^# (.*$)'', flags_gm, ''<h1>$1</h1>''),
     (''^## (.*$)'', flags_gm, ''<h2>$1</h2>''),
     (''^### (.*$)'', flags_gm, ''<h3>$1</h3>''),
     (''^#### (.*$)'', flags_gm, ''<h4>$1</h4>''),
     (''^##### (.*$)'', flags_gm, ''<h5>$1</h5>''),
     (''^###### (.*$)'', flags_gm, ''<h6>$1</h6>'')]"

definition emphasis_rules :: "rule list" where
  "emphasis_rules =
    [(''%*%*(.*?)%*%*'', flags_g, ''<strong>$1</strong>''),
     (''%*(.*?)%*'', flags_g, ''<em>$1</em>'')]"

definition code_rules :: "rule list" where
  "code_rules =
    [(''`([^`]+)`'', flags_g, ''<code>$1</code>''),
     (''```(%w+)?%n([%s%S]*?)%n```'', flags_g,
        ''<pre><code class=\"language-$1\">$2</code></pre>'')]"

definition link_rules :: "rule list" where
  "link_rules =
    [(''%[([^%]]+)%]%(([^)]+)%)'', flags_g,
        ''<a href=\"$2\" target=\"_blank\" rel=\"noopener\">$1</a>''),
     (''!%[([^%]]*)%]%(([^)]+)%)'', flags_g,
        ''<img src=\"$2\" alt=\"$1\" style=\"max-width: 100%; border-radius: 6px; margin: 10px 0;\">'')]"

definition list_rules :: "rule list" where
  "list_rules =
    [(''^- (.*)'', flags_gm, ''<li>$1</li>''),
     (''^(%d+)%. (.*)'', flags_gm, ''<li>$2</li>'')]"

definition quote_rules :: "rule list" where
  "quote_rules =
    [(''^> (.*)'', flags_gm, ''<blockquote>$1</blockquote>''),
     (''^---$'', flags_gm, ''<hr>'')]"

definition break_rules :: "rule list" where
  "break_rules =
    [(''%n%n'', flags_g, ''</p><p>''),
     (''%n'', flags_g, ''<br>'')]"

definition markdown_rules :: "rule list" where
  "markdown_rules =
     header_rules @ emphasis_rules @ code_rules @ link_rules @ list_rules @ quote_rules
     @ break_rules"

text \<open>Lines 781, 784 and 787: the list wrapper, the outer paragraph, the clean-up.\<close>

definition wrap_rule :: rule where
  "wrap_rule = (''(<li>.*<%/li>)'', flags_gs, ''<ul>$1</ul>'')"

definition cleanup_rule :: rule where
  "cleanup_rule = (''<p>%s*<%/p>'', flags_g, [])"

definition markdown_html :: "jsstring \<Rightarrow> failure + jsstring" where
  "markdown_html processedMarkdown =
     (case rewrite markdown_rules processedMarkdown of
        Inl e \<Rightarrow> Inl e
      | Inr html \<Rightarrow>
         (case rewrite [wrap_rule] html of
            Inl e \<Rightarrow> Inl e
          | Inr html' \<Rightarrow> rewrite [cleanup_rule] (u16 ''<p>'' @ html' @ u16 ''</p>'')))"

text \<open>
  \<^verbatim>\<open>updatePreview\<close> of script.js (lines 719 to 790), on a page that has the preview
  element: the result is the new content of the preview, or \<open>Inl SyntaxError\<close> when
  that exception leaves the function (\<open>Inl Unmodelled\<close>: not known, as above).
\<close>

definition empty_preview :: jsstring where
  "empty_preview =
     u16 ''<p style=\"color: #8b949e; text-align: center; padding: 40px;\">Preview will appear here</p>''"

definition updatePreview :: "jsstring \<Rightarrow> element list \<Rightarrow> failure + jsstring" where
  "updatePreview markdown els =
     (if trim markdown = [] then Inr empty_preview
      else
        (case preview_substitute markdown els of
           Inl e \<Rightarrow> Inl e
         | Inr processedMarkdown \<Rightarrow> markdown_html processedMarkdown))"

text \<open>
  The earlier stand-alone \<^verbatim>\<open>updatePreview\<close> (the unnamed script, lines 165 to 179):
  no placeholders, and the patterns for quotes and lists are not anchored to a line.
\<close>

definition legacy_rules :: "rule list" where
  "legacy_rules =
    [(''%*%*(.*?)%*%*'', flags_g, ''<strong>$1</strong>''),
     (''%*(.*?)%*'', flags_g, ''<em>$1</em>''),
     (''`(.*?)`'', flags_g, ''<code>$1</code>''),
     (''> (.*)'', flags_g, ''<blockquote>$1</blockquote>''),
     (''- (.*)'', flags_g, ''<li>$1</li>''),
     (''(%d+)%. (.*)'', flags_g, ''<li>$2</li>''),
     (''(<li>.*<%/li>)'', flags_gs, ''<ul>$1</ul>''),
     (''%n'', flags_g, ''<br>'')]"

definition legacy_updatePreview :: "jsstring \<Rightarrow> failure + jsstring" where
  "legacy_updatePreview markdown = rewrite legacy_rules markdown"

section \<open>Creating an issue\<close>

text \<open>
  The state that \<^verbatim>\<open>createIssue\<close> reads and writes: the connection held by the
  application object, the labels of the current template (if any), the title and body
  inputs, the form controls of the document, and the draft kept in local storage.
\<close>

record app =
  currentUser :: "jsstring option"
  currentRepository :: "jsstring option"
  currentToken :: "jsstring option"
  currentTemplate :: "jsstring list option"
  issue_title :: jsstring
  issue_body :: jsstring
  elements :: "element list"
  issue_draft :: "jsstring option"

datatype issue_data =
  IssueData (d_title: jsstring) (d_body: jsstring) (d_token: jsstring)
    (d_username: jsstring) (d_repo_name: jsstring) (d_labels: "jsstring list")

text \<open>
  What the server answers. A reply is the parsed JSON value as far as the function reads
  it: whether \<^verbatim>\<open>success\<close> is truthy, and the string forms of
  \<^verbatim>\<open>message\<close>, \<^verbatim>\<open>data.issue_number\<close> and \<^verbatim>\<open>issue_url\<close> (none when
  the property is absent or falsy). The body of a response is absent (as with status
  204), or text that is not JSON, or the JSON value \<^verbatim>\<open>null\<close>, or another JSON
  value. The network is a function from a request to its response, or to none when
  \<^verbatim>\<open>fetch\<close> rejects.
\<close>

datatype reply =
  Reply (r_success: bool) (r_message: "jsstring option") (r_issue_number: "jsstring option")
    (r_issue_url: "jsstring option")

datatype payload = NoBody | NotJSON jsstring | JSONNull | JSON reply

datatype response = Response (status: nat) (payload: payload)

type_synonym network = "jsstring \<Rightarrow> issue_data \<Rightarrow> response option"

text \<open>
  The exceptions that the \<^verbatim>\<open>try\<close> block of \<^verbatim>\<open>createIssue\<close> catches: the
  \<^verbatim>\<open>SyntaxError\<close> of a pattern, the rejection of both requests, the
  \<^verbatim>\<open>TypeError\<close> of reading a body a second time, the error that the function
  itself throws for invalid JSON (with the status and the start of the text), and the
  \<^verbatim>\<open>TypeError\<close> of reading a property of \<^verbatim>\<open>null\<close>.
\<close>

datatype thrown =
    PatternSyntaxError
  | FetchRejected
  | BodyAlreadyRead
  | InvalidJSON nat jsstring
  | NullResult

datatype kind = Err | Success | Info

datatype message =
    Text jsstring
  | IssueCreated jsstring jsstring
  | ErrorCreatingIssue thrown

text \<open>What the function does to the page and to the network, in order.\<close>

datatype effect =
    ShowResult message kind
  | ShowLoading jsstring
  | Focus jsstring
  | Fetch jsstring issue_data
  | LogActivity jsstring
  | ClearFormLater

definition truthy :: "jsstring option \<Rightarrow> bool" where
  "truthy x = (case x of None \<Rightarrow> False | Some s \<Rightarrow> s \<noteq> [])"

definition str_or :: "jsstring \<Rightarrow> jsstring option \<Rightarrow> jsstring" where
  "str_or d x = (case x of None \<Rightarrow> d | Some s \<Rightarrow> if s = [] then d else s)"

definition createIssue_endpoint :: jsstring where
  "createIssue_endpoint = u16 ''/api/issues/create''"

definition createIssueCompat_endpoint :: jsstring where
  "createIssueCompat_endpoint = u16 ''/api/create-issue''"

text \<open>Lines 563 to 582: the main endpoint, then the compatibility endpoint.\<close>

definition post_issue :: "network \<Rightarrow> issue_data \<Rightarrow> effect list \<times> (thrown + response)" where
  "post_issue net issueData =
     (case net createIssue_endpoint issueData of
        Some response \<Rightarrow> ([Fetch createIssue_endpoint issueData], Inr response)
      | None \<Rightarrow>
         (case net createIssueCompat_endpoint issueData of
            Some response \<Rightarrow>
              ([Fetch createIssue_endpoint issueData, Fetch createIssueCompat_endpoint issueData],
               Inr response)
          | None \<Rightarrow>
              ([Fetch createIssue_endpoint issueData, Fetch createIssueCompat_endpoint issueData],
               Inl FetchRejected)))"

text \<open>
  Lines 586 to 627: reading the response. When \<^verbatim>\<open>response.json()\<close> rejects, the
  handler calls \<^verbatim>\<open>response.text()\<close>. A body that is present has been read by
  then, so this second read rejects and its \<^verbatim>\<open>TypeError\<close> is what the outer
  handler shows; only without a body does the second read return (the empty string), and
  the function throws its own error.
\<close>

definition read_response :: "app \<Rightarrow> jsstring \<Rightarrow> response \<Rightarrow> effect list \<times> app" where
  "read_response a title response =
     (case payload response of
        NoBody \<Rightarrow>
          ([ShowResult (ErrorCreatingIssue (InvalidJSON (status response) (take 100 []))) Err], a)
      | NotJSON raw \<Rightarrow> ([ShowResult (ErrorCreatingIssue BodyAlreadyRead) Err], a)
      | JSONNull \<Rightarrow> ([ShowResult (ErrorCreatingIssue NullResult) Err], a)
      | JSON result \<Rightarrow>
          if r_success result then
            ([ShowResult (IssueCreated (str_or (u16 ''N/A'') (r_issue_number result))
                            (str_or (u16 ''#'') (r_issue_url result))) Success,
              LogActivity (u16 ''Created issue: '' @ title @ u16 '' (#''
                           @ str_or (u16 ''N/A'') (r_issue_number result) @ u16 '')''),
              ClearFormLater],
             a\<lparr>issue_draft := None\<rparr>)
          else
            ([ShowResult (Text ([10060, 32] @ str_or (u16 ''Failed to create issue'') (r_message result))) Err],
             a))"

text \<open>Lines 547 to 631: the request and what follows it, given the final body.\<close>

definition send_issue :: "network \<Rightarrow> app \<Rightarrow> jsstring \<Rightarrow> jsstring \<Rightarrow> effect list \<times> app" where
  "send_issue net a title finalBody =
     (let issueData =
            IssueData title finalBody (str_or [] (currentToken a)) (str_or [] (currentUser a))
              (str_or [] (currentRepository a))
              (case currentTemplate a of None \<Rightarrow> [] | Some labels \<Rightarrow> labels)
      in case post_issue net issueData of
           (requests, Inl e) \<Rightarrow> (requests @ [ShowResult (ErrorCreatingIssue e) Err], a)
         | (requests, Inr response) \<Rightarrow>
             (case read_response a title response of (shown, a') \<Rightarrow> (requests @ shown, a')))"

text \<open>
  Lines 525 to 631: the loading message and the \<^verbatim>\<open>try\<close> block, reached when
  validation has passed. The result is none when a key gives a pattern outside the syntax
  interpreted here: the development does not say what the function does then.
\<close>

definition submit_issue :: "network \<Rightarrow> app \<Rightarrow> jsstring \<Rightarrow> jsstring \<Rightarrow> (effect list \<times> app) option" where
  "submit_issue net a title body =
     (case submit_substitute body (elements a) of
        Inl Unmodelled \<Rightarrow> None
      | Inl SyntaxError \<Rightarrow>
          Some ([ShowLoading (u16 ''Creating issue...''),
                 ShowResult (ErrorCreatingIssue PatternSyntaxError) Err], a)
      | Inr finalBody \<Rightarrow>
          (case send_issue net a title finalBody of
             (effects, a') \<Rightarrow> Some (ShowLoading (u16 ''Creating issue...'') # effects, a')))"

text \<open>\<^verbatim>\<open>createIssue\<close> of script.js, lines 494 to 632.\<close>

definition createIssue :: "network \<Rightarrow> app \<Rightarrow> (effect list \<times> app) option" where
  "createIssue net a =
     (if \<not> (truthy (currentUser a) \<and> truthy (currentRepository a) \<and> truthy (currentToken a))
      then Some ([ShowResult (Text (u16 ''Please connect to a repository first'')) Err], a)
      else
        (let title = trim (issue_title a); body = trim (issue_body a)
         in if title = [] then
              Some ([ShowResult (Text (u16 ''Please enter issue title'')) Err,
                     Focus (u16 ''issue-title'')], a)
            else if body = [] then
              Some ([ShowResult (Text (u16 ''Please enter issue body'')) Err,
                     Focus (u16 ''issue-body'')], a)
            else
              (case find (\<lambda>field. trim (el_value field) = []) (required_field_elements (elements a)) of
                 Some field \<Rightarrow>
                   Some ([ShowResult (Text (u16 ''Please fill required field: '' @ fieldName field)) Err,
                          Focus (el_id field)], a)
               | None \<Rightarrow> submit_issue net a title body)))"

section \<open>Vocabulary of the statements\<close>

text \<open>
  The controls that \<^verbatim>\<open>renderTemplateFields\<close> (script.js, lines 384 to 470) creates
  for a field of a template: a text input and a check box, with the id
  \<^verbatim>\<open>field-\<close> followed by the field's name. The value of a check box is
  \<^verbatim>\<open>on\<close>; it never has the \<^verbatim>\<open>required\<close> attribute.
\<close>

definition text_input :: "jsstring \<Rightarrow> jsstring \<Rightarrow> bool \<Rightarrow> element" where
  "text_input name v req =
     \<lparr>el_id = u16 ''field-'' @ name, el_type = u16 ''text'', el_value = v,
      el_checked = False, el_required = req\<rparr>"

definition checkbox_input :: "jsstring \<Rightarrow> bool \<Rightarrow> element" where
  "checkbox_input name checked =
     \<lparr>el_id = u16 ''field-'' @ name, el_type = u16 ''checkbox'', el_value = u16 ''on'',
      el_checked = checked, el_required = False\<rparr>"

text \<open>The bodies of the issues that a run of \<^verbatim>\<open>createIssue\<close> sends, request by request.\<close>

definition sent_bodies :: "effect list \<Rightarrow> jsstring list" where
  "sent_bodies effects =
     concat (map (\<lambda>e. case e of Fetch url issueData \<Rightarrow> [d_body issueData] | _ \<Rightarrow> []) effects)"


text \<open>How often a text occurs in a string, and whether it occurs at all.\<close>

fun occurrences :: "jsstring \<Rightarrow> jsstring \<Rightarrow> nat" where
  "occurrences p [] = (if p = [] then 1 else 0)"
| "occurrences p (x # xs) = (if starts_with p (x # xs) then 1 else 0) + occurrences p xs"

definition contains :: "jsstring \<Rightarrow> jsstring \<Rightarrow> bool" where
  "contains p s \<longleftrightarrow> 0 < occurrences p s"

text \<open>
  A key is plain when none of its code units has a meaning in a pattern: it holds none of
  \<^verbatim>\<open>^ $ \ . * + ? ( ) [ ] { } |\<close>.
\<close>

definition syntax_character :: "nat \<Rightarrow> bool" where
  "syntax_character c \<longleftrightarrow> c \<in> set (rx ''^$%.*+?()[]{}|'')"

definition plain :: "jsstring \<Rightarrow> bool" where
  "plain key \<longleftrightarrow> list_all (\<lambda>c. \<not> syntax_character c) key"

text \<open>The placeholder token of a field name.\<close>

definition token_of :: "jsstring \<Rightarrow> jsstring" where
  "token_of name = 123 # name @ [125]"

text \<open>
  The replacement that the specification describes, in its words: every occurrence of a
  text is replaced, from left to right, and what was put in is not looked at again.
\<close>

function replace_all :: "jsstring \<Rightarrow> jsstring \<Rightarrow> jsstring \<Rightarrow> jsstring" where
  "replace_all p v [] = []"
| "replace_all p v (x # xs) =
     (if starts_with p (x # xs) then v @ replace_all p v (drop (length p - 1) xs)
      else x # replace_all p v xs)"
  by pat_completeness auto
termination
  by (relation "measure (\<lambda>(p, v, s). length s)") auto

text \<open>
  The position of the last occurrence of a text in a string, if there is one.
\<close>

fun find_last :: "jsstring \<Rightarrow> jsstring \<Rightarrow> nat option" where
  "find_last p [] = None"
| "find_last p (x # xs) =
     (case find_last p xs of
        Some k \<Rightarrow> Some (Suc k)
      | None \<Rightarrow> if starts_with p (x # xs) then Some 0 else None)"

text \<open>
  What the list wrapper does, in words: at the first \<^verbatim>\<open><li>\<close> that has a
  \<^verbatim>\<open></li>\<close> after it, the text from there to the end of the last
  \<^verbatim>\<open></li>\<close> is put between \<^verbatim>\<open><ul>\<close> and \<^verbatim>\<open></ul>\<close>, whatever
  lies in between; nothing else changes.
\<close>

fun wrap_span :: "jsstring \<Rightarrow> jsstring" where
  "wrap_span [] = []"
| "wrap_span (x # xs) =
     (if starts_with (u16 ''<li>'') (x # xs) then
        (case find_last (u16 ''</li>'') (drop 4 (x # xs)) of
           None \<Rightarrow> x # xs
         | Some k \<Rightarrow>
             u16 ''<ul>'' @ take (k + 9) (x # xs) @ u16 ''</ul>'' @ drop (k + 9) (x # xs))
      else x # wrap_span xs)"

text \<open>The pattern of the list wrapper, as the constructor reads it.\<close>

definition wrap_pattern :: regex where
  "wrap_pattern =
     Seq (Grp 1 (foldr Seq (map Lit (u16 ''<li>''))
                   (Seq (Rep ZeroOrMore True Dot) (seq_of (map Lit (u16 ''</li>''))))))
         Eps"

section \<open>What a rule does to the occurrences of one character\<close>

text \<open>
  The notions of this section are not taken from the program; they are used to show that
  a rule of the renderer neither removes nor adds an occurrence of a given code unit.

  The template of a replacement is read as a list of parts, literal code units and
  references to captures; a template that refers to the match or to the text around it
  has no such reading.
\<close>

datatype part = PLit nat | PCap nat


fun part_text :: "(nat \<times> jsstring) list \<Rightarrow> part \<Rightarrow> jsstring" where
  "part_text cs (PLit x) = [x]"
| "part_text cs (PCap k) = cap_text cs k"

text \<open>How often a code unit occurs in the expansion of a template, given the captures.\<close>

definition weight :: "nat \<Rightarrow> part list \<Rightarrow> (nat \<times> jsstring) list \<Rightarrow> nat" where
  "weight c ps cs = count_list (concat (map (part_text cs) ps)) c"







section \<open>Properties\<close>

subsection \<open>The examples of the specification\<close>

text \<open>
  C8. End to end: the body \<^verbatim>\<open>Hello {name}, priority {priority}\<close> with the field
  values name = Alice and priority = High becomes \<^verbatim>\<open>Hello Alice, priority High\<close>
  on the preview path and on the submit path, and the preview renders that text as one
  paragraph, \<^verbatim>\<open><p>Hello Alice, priority High</p>\<close>.
\<close>

theorem C8_end_to_end:
  "preview_substitute (u16 ''Hello {name}, priority {priority}'')
     [text_input (u16 ''name'') (u16 ''Alice'') False,
      text_input (u16 ''priority'') (u16 ''High'') False]
     = Inr (u16 ''Hello Alice, priority High'')
   \<and> submit_substitute (u16 ''Hello {name}, priority {priority}'')
     [text_input (u16 ''name'') (u16 ''Alice'') False,
      text_input (u16 ''priority'') (u16 ''High'') False]
     = Inr (u16 ''Hello Alice, priority High'')
   \<and> markdown_html (u16 ''Hello Alice, priority High'')
     = Inr (u16 ''<p>Hello Alice, priority High</p>'')
   \<and> updatePreview (u16 ''Hello {name}, priority {priority}'')
     [text_input (u16 ''name'') (u16 ''Alice'') False,
      text_input (u16 ''priority'') (u16 ''High'') False]
     = Inr (u16 ''<p>Hello Alice, priority High</p>'')"
  by code_simp

text \<open>
  C5, as the specification states it, fails: between the two list items the output has the
  \<^verbatim>\<open><br>\<close> that the line-break rule puts in for the newline, so
  \<^verbatim>\<open><li>one</li><li>two</li>\<close> is not a contiguous part of it.
\<close>

theorem C5_counterexample:
  "markdown_html (u16 ''- one\<newline>- two'')
     = Inr (u16 ''<p><ul><li>one</li><br><li>two</li></ul></p>'')
   \<and> \<not> contains (u16 ''<li>one</li><li>two</li>'')
         (u16 ''<p><ul><li>one</li><br><li>two</li></ul></p>'')"
  by code_simp

text \<open>
  The renderer of script.js on \<^verbatim>\<open>**a** *b*\<close>: bold is rewritten before italic,
  and the output has \<^verbatim>\<open><strong>a</strong>\<close> and \<^verbatim>\<open><em>b</em>\<close> once each
  and no other emphasis tag.
\<close>

lemma bold_before_italic:
  "markdown_html (u16 ''**a** *b*'') = Inr (u16 ''<p><strong>a</strong> <em>b</em></p>'')
   \<and> occurrences (u16 ''<strong>a</strong>'') (u16 ''<p><strong>a</strong> <em>b</em></p>'') = 1
   \<and> occurrences (u16 ''<em>b</em>'') (u16 ''<p><strong>a</strong> <em>b</em></p>'') = 1
   \<and> occurrences (u16 ''<strong>'') (u16 ''<p><strong>a</strong> <em>b</em></p>'') = 1
   \<and> occurrences (u16 ''<em>'') (u16 ''<p><strong>a</strong> <em>b</em></p>'') = 1"
  by code_simp

text \<open>
  C6 on the stand-alone \<^verbatim>\<open>updatePreview\<close>, which the claim also cites: there the
  pattern for quotes is not anchored to the start of a line, finds \<^verbatim>\<open>> \<close> at the
  end of \<^verbatim>\<open></strong> \<close> and takes the closing bracket of the tag with it. The
  output does not contain \<^verbatim>\<open><strong>a</strong>\<close>.
\<close>

theorem C6_legacy_blockquote:
  "legacy_updatePreview (u16 ''**a** *b*'')
     = Inr (u16 ''<strong>a</strong<blockquote><em>b</em></blockquote>'')
   \<and> occurrences (u16 ''<strong>a</strong>'')
         (u16 ''<strong>a</strong<blockquote><em>b</em></blockquote>'') = 0"
  by code_simp


subsection \<open>Keys and values that the substitution does not take literally\<close>

text \<open>
  C1, as the specification states it, fails: the keys are replaced one after the other,
  each in the output of the one before. With the keys in the order a, b the value of a is
  read again and the result is \<^verbatim>\<open>X\<close>; in the order b, a it is \<^verbatim>\<open>{b}\<close>.
\<close>

theorem C1_counterexample:
  "replace_placeholders (u16 ''{a}'')
     (Object_entries [(u16 ''a'', Str (u16 ''{b}'')), (u16 ''b'', Str (u16 ''X''))])
     = Inr (u16 ''X'')
   \<and> replace_placeholders (u16 ''{a}'')
     (Object_entries [(u16 ''b'', Str (u16 ''X'')), (u16 ''a'', Str (u16 ''{b}''))])
     = Inr (u16 ''{b}'')"
  by code_simp

text \<open>
  C2 at a field named \<^verbatim>\<open>c++\<close>: the pattern \<^verbatim>\<open>\{c++\}\<close> has a quantifier
  with nothing to repeat, the constructor throws, and neither path produces a string: the
  exception leaves \<^verbatim>\<open>updatePreview\<close>, and \<^verbatim>\<open>createIssue\<close> catches it,
  shows an error and sends nothing.
\<close>

theorem C2_key_breaks_pattern:
  "preview_substitute (u16 ''Language: {c++}'') [text_input (u16 ''c++'') (u16 ''yes'') False]
     = Inl SyntaxError
   \<and> updatePreview (u16 ''Language: {c++}'') [text_input (u16 ''c++'') (u16 ''yes'') False]
     = Inl SyntaxError
   \<and> submit_substitute (u16 ''Language: {c++}'') [text_input (u16 ''c++'') (u16 ''yes'') False]
     = Inl SyntaxError
   \<and> createIssue (\<lambda>url d. None)
        \<lparr>currentUser = Some (u16 ''octocat''), currentRepository = Some (u16 ''demo''),
         currentToken = Some (u16 ''ghp_x''), currentTemplate = None,
         issue_title = u16 ''Build'', issue_body = u16 ''Language: {c++}'',
         elements = [text_input (u16 ''c++'') (u16 ''yes'') False],
         issue_draft = None\<rparr>
      = Some ([ShowLoading (u16 ''Creating issue...''),
               ShowResult (ErrorCreatingIssue PatternSyntaxError) Err],
              \<lparr>currentUser = Some (u16 ''octocat''), currentRepository = Some (u16 ''demo''),
               currentToken = Some (u16 ''ghp_x''), currentTemplate = None,
               issue_title = u16 ''Build'', issue_body = u16 ''Language: {c++}'',
               elements = [text_input (u16 ''c++'') (u16 ''yes'') False],
               issue_draft = None\<rparr>)"
  by code_simp

text \<open>
  C3 at a check box: the submit path stores the boolean and \<^verbatim>\<open>replace\<close> writes it
  as \<^verbatim>\<open>true\<close> or \<^verbatim>\<open>false\<close>; the preview path writes the yes/no token.
\<close>

theorem C3_submit_checkbox_raw:
  "submit_substitute (u16 ''Regression: {regression}'') [checkbox_input (u16 ''regression'') True]
     = Inr (u16 ''Regression: true'')
   \<and> submit_substitute (u16 ''Regression: {regression}'') [checkbox_input (u16 ''regression'') False]
     = Inr (u16 ''Regression: false'')
   \<and> preview_substitute (u16 ''Regression: {regression}'') [checkbox_input (u16 ''regression'') True]
     = Inr (u16 ''Regression: '' @ yes_token)"
  by code_simp

text \<open>
  C4 at a field named \<^verbatim>\<open>os.version\<close>: the dot of the key matches any code unit, so
  the tokens \<^verbatim>\<open>{os_version}\<close> and \<^verbatim>\<open>{os-version}\<close>, whose names are not keys
  of the map, are replaced.
\<close>

theorem C4_key_read_as_pattern:
  "preview_substitute (u16 ''{os_version} {os-version}'')
     [text_input (u16 ''os.version'') (u16 ''12'') False]
     = Inr (u16 ''12 12'')
   \<and> submit_substitute (u16 ''{os_version} {os-version}'')
     [text_input (u16 ''os.version'') (u16 ''12'') False]
     = Inr (u16 ''12 12'')"
  by code_simp

text \<open>
  The example of C4 itself: with the map a = 1 the token \<^verbatim>\<open>{unknown}\<close> is kept.
\<close>

lemma unknown_token_example:
  "preview_substitute (u16 ''{unknown}'') [text_input (u16 ''a'') (u16 ''1'') False]
     = Inr (u16 ''{unknown}'')
   \<and> submit_substitute (u16 ''{unknown}'') [text_input (u16 ''a'') (u16 ''1'') False]
     = Inr (u16 ''{unknown}'')"
  by code_simp

text \<open>
  A value is the replacement template of \<^verbatim>\<open>replace\<close>, so a dollar sign in it is
  not always taken literally: \<^verbatim>\<open>$$\<close> becomes one dollar sign and \<^verbatim>\<open>$&\<close>
  the token itself.
\<close>

lemma dollar_in_value:
  "preview_substitute (u16 ''Price: {price}'') [text_input (u16 ''price'') (u16 ''US$$5'') False]
     = Inr (u16 ''Price: US$5'')
   \<and> submit_substitute (u16 ''Price: {price}'') [text_input (u16 ''price'') (u16 ''US$$5'') False]
     = Inr (u16 ''Price: US$5'')
   \<and> preview_substitute (u16 ''{a}'') [text_input (u16 ''a'') (u16 ''$&'') False]
     = Inr (u16 ''{a}'')"
  by code_simp

subsection \<open>Plain keys: the pattern is the token\<close>

lemma syntax_character_iff:
  "syntax_character c \<longleftrightarrow>
     c = 94 \<or> c = 36 \<or> c = 92 \<or> c = 46 \<or> c = 42 \<or> c = 43 \<or> c = 63 \<or> c = 40 \<or> c = 41
     \<or> c = 91 \<or> c = 93 \<or> c = 123 \<or> c = 125 \<or> c = 124"
  by (auto simp: syntax_character_def rx_def)

lemma lex_plain_char:
  assumes "\<not> syntax_character c"
  shows "lex None (c # cs) = (case lex None cs of Inl e \<Rightarrow> Inl e | Inr ts \<Rightarrow> Inr (TChar c # ts))"
  using assms by (simp add: syntax_character_iff)

declare lex.simps [simp del]

lemma lex_plain:
  "plain k \<Longrightarrow>
   lex None (k @ cs) = (case lex None cs of Inl e \<Rightarrow> Inl e | Inr ts \<Rightarrow> Inr (map TChar k @ ts))"
proof (induction k)
  case Nil
  then show ?case by (simp split: sum.splits)
next
  case (Cons c k)
  then have c: "\<not> syntax_character c" and k: "plain k" by (simp_all add: plain_def)
  show ?case
    using Cons.IH [OF k] by (simp add: lex_plain_char [OF c] split: sum.splits)
qed

lemma lex_placeholder:
  assumes "plain k"
  shows "lex None (placeholder_source k) = Inr (map TChar (token_of k))"
proof -
  have e: "lex None (rx ''%}'') = Inr [TChar 125]"
    by code_simp
  have "lex None (placeholder_source k) = lex None (92 # 123 # (k @ rx ''%}''))"
    by (simp add: placeholder_source_def rx_def)
  also have "\<dots> = Inr (TChar 123 # map TChar k @ [TChar 125])"
    by (subst lex.simps) (simp add: escape_def is_digit_def lex_plain [OF assms] e)
  finally show ?thesis by (simp add: token_of_def)
qed

lemma parse_chars:
  "parse f stk n q (map TChar s @ ts) =
   parse (Frame (alts f) (rev (map Lit s) @ cur f) (grp f)) stk n (q \<or> s \<noteq> []) ts"
proof (induction s arbitrary: f q)
  case Nil
  then show ?case by simp
next
  case (Cons c s)
  show ?case
    by (simp add: quant_of_def push_def Cons.IH)
qed

lemma RegExp_placeholder:
  assumes "plain k"
  shows "RegExp (placeholder_source k) = Inr (seq_of (map Lit (token_of k)))"
proof -
  have "parse (Frame [] [] None) [] 0 False (map TChar (token_of k) @ [])
        = parse (Frame [] (rev (map Lit (token_of k))) None) [] 0 True []"
    by (subst parse_chars) (simp add: token_of_def)
  then show ?thesis
    by (simp add: RegExp_def lex_placeholder [OF assms] close_frame_def)
qed

lemma m_literal:
  "m fl (seq_of (map Lit p)) (MState pc s cs) =
     (if starts_with p s
      then [MState (if p = [] then pc else Some (last p)) (drop (length p) s) cs]
      else [])"
proof (induction p arbitrary: pc s)
  case Nil
  then show ?case by (simp add: starts_with_def)
next
  case (Cons c p)
  note IH = Cons.IH
  show ?case
  proof (cases s)
    case Nil
    then show ?thesis by (simp add: starts_with_def)
  next
    case (Cons x xs)
    show ?thesis
    proof (cases "x = c")
      case True
      with Cons show ?thesis
        using IH [of "Some c" xs] by (simp add: starts_with_def)
    next
      case False
      with Cons show ?thesis by (simp add: starts_with_def)
    qed
  qed
qed

lemma starts_with_length:
  assumes "starts_with p s"
  shows "length p \<le> length s"
proof -
  from assms have "length (take (length p) s) = length p"
    by (simp add: starts_with_def)
  then show ?thesis by simp
qed

lemma match_here_literal:
  "match_here fl (seq_of (map Lit p)) pc s = (if starts_with p s then Some (length p, []) else None)"
  using starts_with_length [of p s] by (simp add: match_here_def m_literal)

lemma groups_of_literal: "groups_of (seq_of (map Lit p)) = []"
  by (induction p) auto

lemma GetSubstitution_plain:
  "36 \<notin> set v \<Longrightarrow> GetSubstitution v ng matched pre post cs = v"
proof (induction v)
  case Nil
  then show ?case by simp
next
  case (Cons c v)
  then have "c \<noteq> 36" by auto
  with Cons show ?case by simp
qed

declare replace_from.simps [simp del]

lemma replace_from_literal:
  assumes "p \<noteq> []" and "36 \<notin> set v"
  shows "replace_from fl (seq_of (map Lit p)) v pre s = replace_all p v s"
proof (induction s arbitrary: pre rule: length_induct)
  case (1 s)
  show ?case
  proof (cases s)
    case Nil
    with assms show ?thesis
      by (subst replace_from.simps) (simp add: match_here_literal starts_with_def)
  next
    case (Cons x xs)
    show ?thesis
    proof (cases "starts_with p (x # xs)")
      case True
      have d: "drop (length p) (x # xs) = drop (length p - 1) xs"
        using assms(1) by (cases p) simp_all
      have "length (drop (length p - 1) xs) < length s"
        using Cons by simp
      then have "replace_from fl (seq_of (map Lit p)) v (rev (take (length p) (x # xs)) @ pre)
                   (drop (length p - 1) xs) = replace_all p v (drop (length p - 1) xs)"
        using 1 by blast
      with True assms Cons d show ?thesis
        by (subst replace_from.simps)
           (simp add: match_here_literal GetSubstitution_plain groups_of_literal)
    next
      case False
      have "replace_from fl (seq_of (map Lit p)) v (x # pre) xs = replace_all p v xs"
        using 1 Cons by simp
      with False Cons show ?thesis
        by (subst replace_from.simps) (simp add: match_here_literal)
    qed
  qed
qed

lemma token_of_nonempty: "token_of k \<noteq> []"
  by (simp add: token_of_def)

lemma js_replace_placeholder:
  assumes "plain key" and "36 \<notin> set v"
  shows "RegExp (placeholder_source key) = Inr (seq_of (map Lit (token_of key)))"
    and "js_replace flags_g (seq_of (map Lit (token_of key))) v s = replace_all (token_of key) v s"
  using assms
  by (simp_all add: RegExp_placeholder js_replace_def replace_from_literal token_of_nonempty)

text \<open>
  C1, amended. Substitution is one global replacement per key, applied in the order in
  which \<^verbatim>\<open>Object.entries\<close> lists the keys, each to the output of the one before.
  Within the replacement of one key the text put in is not scanned again; a key that
  comes later does see it. For plain keys and values without a dollar sign the result is
  the left fold of the literal replacement of \<^verbatim>\<open>{key}\<close> by the value's string form
  over the entries.
\<close>

theorem C1_sequential:
  assumes "list_all (\<lambda>(key, val). plain key \<and> 36 \<notin> set (ToString val)) entries"
  shows "replace_placeholders body entries =
         Inr (foldl (\<lambda>s (key, val). replace_all (token_of key) (ToString val) s) body entries)"
  using assms
proof (induction entries arbitrary: body)
  case Nil
  then show ?case by simp
next
  case (Cons e entries)
  obtain key val where e: "e = (key, val)" by (cases e)
  with Cons.prems have k: "plain key" and v: "36 \<notin> set (ToString val)"
    and rest: "list_all (\<lambda>(key, val). plain key \<and> 36 \<notin> set (ToString val)) entries"
    by simp_all
  show ?case
    by (simp add: e js_replace_placeholder [OF k v] Cons.IH [OF rest])
qed

theorem C1_sequential_witness:
  "list_all (\<lambda>(key, val). plain key \<and> 36 \<notin> set (ToString val))
     [(u16 ''a'', Str (u16 ''{b}'')), (u16 ''b'', Str (u16 ''X''))]
   \<and> replace_placeholders (u16 ''{a}'') [(u16 ''a'', Str (u16 ''{b}'')), (u16 ''b'', Str (u16 ''X''))]
     = Inr (foldl (\<lambda>s (key, val). replace_all (token_of key) (ToString val) s) (u16 ''{a}'')
              [(u16 ''a'', Str (u16 ''{b}'')), (u16 ''b'', Str (u16 ''X''))])
   \<and> foldl (\<lambda>s (key, val). replace_all (token_of key) (ToString val) s) (u16 ''{a}'')
        [(u16 ''a'', Str (u16 ''{b}'')), (u16 ''b'', Str (u16 ''X''))] = u16 ''X''"
proof -
  have h: "list_all (\<lambda>(key, val). plain key \<and> 36 \<notin> set (ToString val))
             [(u16 ''a'', Str (u16 ''{b}'')), (u16 ''b'', Str (u16 ''X''))]"
    by code_simp
  have e: "foldl (\<lambda>s (key, val). replace_all (token_of key) (ToString val) s) (u16 ''{a}'')
             [(u16 ''a'', Str (u16 ''{b}'')), (u16 ''b'', Str (u16 ''X''))] = u16 ''X''"
    by code_simp
  from h C1_sequential [OF h, of "u16 ''{a}''"] e show ?thesis
    by (intro conjI)
qed

subsection \<open>Plain keys: a token that is not a key is kept\<close>

lemma starts_with_append:
  assumes "starts_with p s"
  shows "starts_with p (s @ t)"
proof -
  from assms have "length p \<le> length s" by (rule starts_with_length)
  with assms show ?thesis by (simp add: starts_with_def)
qed

lemma replace_all_skip:
  assumes "p \<noteq> []" and "hd p \<notin> set u"
  shows "replace_all p v (u @ w) = u @ replace_all p v w"
  using assms(2)
proof (induction u)
  case Nil
  then show ?case by simp
next
  case (Cons c u)
  then have "\<not> starts_with p (c # u @ w)"
    using assms(1) by (cases p) (auto simp: starts_with_def)
  with Cons show ?case by simp
qed

lemma closing_brace_first:
  assumes "starts_with (k @ [125]) (name @ 125 # post)" and "125 \<notin> set k" and "125 \<notin> set name"
  shows "k = name"
  using assms
proof (induction k arbitrary: name)
  case Nil
  then show ?case by (cases name) (auto simp: starts_with_def)
next
  case (Cons a k)
  show ?case
  proof (cases name)
    case Nil
    with Cons.prems show ?thesis by (auto simp: starts_with_def)
  next
    case (Cons b name')
    with Cons.prems have "a = b" and "starts_with (k @ [125]) (name' @ 125 # post)"
      by (auto simp: starts_with_def)
    with Cons.IH [of name'] Cons.prems Cons show ?thesis by simp
  qed
qed

lemma other_token_no_match:
  assumes "starts_with (token_of k) (token_of name @ post)" and "125 \<notin> set k" and "125 \<notin> set name"
  shows "k = name"
proof -
  from assms(1) have "starts_with (k @ [125]) (name @ 125 # post)"
    by (simp add: token_of_def starts_with_def)
  from closing_brace_first [OF this assms(2,3)] show ?thesis .
qed

lemma no_straddle:
  assumes s: "starts_with (token_of k) (pre @ token_of name @ post)"
    and k: "123 \<notin> set k" and ne: "pre \<noteq> []"
  shows "starts_with (token_of k) pre"
proof (cases "length (token_of k) \<le> length pre")
  case True
  with s show ?thesis by (simp add: starts_with_def)
next
  case False
  let ?p = "token_of k"
  let ?i = "length pre"
  from False have i: "?i < length ?p" by simp
  from ne have pos: "0 < ?i" by simp
  from s have "?p ! ?i = take (length ?p) (pre @ token_of name @ post) ! ?i"
    by (simp add: starts_with_def)
  also from i have "\<dots> = (pre @ token_of name @ post) ! ?i" by (rule nth_take)
  also have "\<dots> = 123" by (simp add: nth_append token_of_def)
  finally have "?p ! ?i = 123" .
  moreover from pos have "?p ! ?i = (k @ [125]) ! (?i - 1)"
    by (simp add: token_of_def nth_Cons')
  moreover from i pos have "(k @ [125]) ! (?i - 1) \<in> set (k @ [125])"
    by (intro nth_mem) (simp add: token_of_def)
  ultimately have "123 \<in> set (k @ [125])" by simp
  with k show ?thesis by simp
qed

lemma replace_all_around_token:
  assumes k: "123 \<notin> set k" "125 \<notin> set k"
    and n: "123 \<notin> set name" "125 \<notin> set name" and d: "k \<noteq> name"
  shows "replace_all (token_of k) v (pre @ token_of name @ post)
         = replace_all (token_of k) v pre @ token_of name @ replace_all (token_of k) v post"
proof (induction pre rule: length_induct)
  case (1 pre)
  let ?p = "token_of k"
  have pne: "?p \<noteq> []" and hd: "hd ?p = 123" by (simp_all add: token_of_def)
  show ?case
  proof (cases pre)
    case Nil
    have "\<not> starts_with ?p (token_of name @ post)"
      using other_token_no_match [of k name post] k(2) n(2) d by blast
    then have "replace_all ?p v (token_of name @ post)
               = 123 # replace_all ?p v ((name @ [125]) @ post)"
      by (simp add: token_of_def)
    also have "replace_all ?p v ((name @ [125]) @ post) = (name @ [125]) @ replace_all ?p v post"
      using n(1) by (intro replace_all_skip [OF pne]) (simp add: hd)
    finally show ?thesis using Nil by (simp add: token_of_def)
  next
    case (Cons x pre')
    show ?thesis
    proof (cases "starts_with ?p (pre @ token_of name @ post)")
      case True
      from no_straddle [OF True k(1)] Cons have sp: "starts_with ?p (x # pre')" by simp
      from starts_with_length [OF sp] have len: "length ?p - 1 \<le> length pre'" by simp
      then have "length (drop (length ?p - 1) pre') < length pre" using Cons by simp
      with 1 have IH: "replace_all ?p v (drop (length ?p - 1) pre' @ token_of name @ post)
              = replace_all ?p v (drop (length ?p - 1) pre') @ token_of name @ replace_all ?p v post"
        by blast
      from True Cons have "replace_all ?p v (pre @ token_of name @ post)
            = v @ replace_all ?p v (drop (length ?p - 1) (pre' @ token_of name @ post))"
        by simp
      also from len have "drop (length ?p - 1) (pre' @ token_of name @ post)
            = drop (length ?p - 1) pre' @ token_of name @ post"
        by simp
      finally show ?thesis using IH sp Cons by simp
    next
      case False
      with starts_with_append [of ?p pre "token_of name @ post"]
      have "\<not> starts_with ?p (x # pre')" using Cons by auto
      moreover have "replace_all ?p v (pre' @ token_of name @ post)
              = replace_all ?p v pre' @ token_of name @ replace_all ?p v post"
        using 1 Cons by simp
      ultimately show ?thesis using False Cons by simp
    qed
  qed
qed

lemma plain_no_braces: "plain k \<Longrightarrow> 123 \<notin> set k \<and> 125 \<notin> set k"
  by (auto simp: plain_def list_all_iff syntax_character_iff)

text \<open>
  For plain keys and values without a dollar sign, a token whose name is not a key (and
  holds no brace) is kept where it is, and the text before and after it is substituted as
  if it stood alone.
\<close>

lemma unknown_token_kept:
  assumes "list_all (\<lambda>(key, val). plain key \<and> 36 \<notin> set (ToString val) \<and> key \<noteq> name) entries"
    and "123 \<notin> set name" and "125 \<notin> set name"
  shows "replace_placeholders (pre @ token_of name @ post) entries =
         Inr (foldl (\<lambda>s (key, val). replace_all (token_of key) (ToString val) s) pre entries
              @ token_of name
              @ foldl (\<lambda>s (key, val). replace_all (token_of key) (ToString val) s) post entries)"
  using assms(1)
proof (induction entries arbitrary: pre post)
  case Nil
  then show ?case by simp
next
  case (Cons e entries)
  obtain key val where e: "e = (key, val)" by (cases e)
  with Cons.prems have k: "plain key" and v: "36 \<notin> set (ToString val)" and d: "key \<noteq> name"
    and rest: "list_all (\<lambda>(key, val). plain key \<and> 36 \<notin> set (ToString val) \<and> key \<noteq> name) entries"
    by simp_all
  from plain_no_braces [OF k] have kb: "123 \<notin> set key" "125 \<notin> set key" by simp_all
  show ?case
    by (simp add: e js_replace_placeholder [OF k v]
          replace_all_around_token [OF kb assms(2,3) d] Cons.IH [OF rest])
qed

subsection \<open>The two paths\<close>

lemma foldl_agree:
  "(\<And>acc x. x \<in> set xs \<Longrightarrow> f acc x = h acc x) \<Longrightarrow> foldl f a xs = foldl h a xs"
  by (induction xs arbitrary: a) auto

lemma sent_bodies_append: "sent_bodies (xs @ ys) = sent_bodies xs @ sent_bodies ys"
  by (simp add: sent_bodies_def)

lemma sent_bodies_read_response: "sent_bodies (fst (read_response a title response)) = []"
  by (simp add: read_response_def sent_bodies_def split: payload.splits)

lemma sent_bodies_post_issue:
  "sent_bodies (fst (post_issue net d)) = [d_body d]
   \<or> sent_bodies (fst (post_issue net d)) = [d_body d, d_body d]"
  by (simp add: post_issue_def sent_bodies_def split: option.splits)

lemma send_issue_bodies:
  "sent_bodies (fst (send_issue net a title finalBody)) = [finalBody]
   \<or> sent_bodies (fst (send_issue net a title finalBody)) = [finalBody, finalBody]"
proof -
  let ?d = "IssueData title finalBody (str_or [] (currentToken a)) (str_or [] (currentUser a))
              (str_or [] (currentRepository a))
              (case currentTemplate a of None \<Rightarrow> [] | Some labels \<Rightarrow> labels)"
  obtain requests res where p: "post_issue net ?d = (requests, res)" by (cases "post_issue net ?d")
  with sent_bodies_post_issue [of net ?d]
  have r: "sent_bodies requests = [finalBody] \<or> sent_bodies requests = [finalBody, finalBody]"
    by simp
  show ?thesis
  proof (cases res)
    case (Inl e)
    with p r show ?thesis
      by (simp add: send_issue_def sent_bodies_append) (simp add: sent_bodies_def)
  next
    case (Inr response)
    obtain shown a' where rr: "read_response a title response = (shown, a')"
      by (cases "read_response a title response")
    with sent_bodies_read_response [of a title response] have "sent_bodies shown = []" by simp
    with p r Inr rr show ?thesis
      by (simp add: send_issue_def sent_bodies_append)
  qed
qed

text \<open>
  C9, as the specification states it, fails for a body with white space at its ends:
  \<^verbatim>\<open>createIssue\<close> substitutes into the trimmed body, \<^verbatim>\<open>updatePreview\<close> into
  the body as typed. With the body \<^verbatim>\<open>  Hi {name}  \<close> and the text field name = Al
  the preview computes \<^verbatim>\<open>  Hi Al  \<close> and the issue is sent with \<^verbatim>\<open>Hi Al\<close>.
\<close>

theorem C9_counterexample:
  "list_all (\<lambda>field. el_type field \<noteq> u16 ''checkbox'')
     (field_elements [text_input (u16 ''name'') (u16 ''Al'') False])
   \<and> preview_substitute (u16 ''  Hi {name}  '') [text_input (u16 ''name'') (u16 ''Al'') False]
     = Inr (u16 ''  Hi Al  '')
   \<and> submit_substitute (trim (u16 ''  Hi {name}  '')) [text_input (u16 ''name'') (u16 ''Al'') False]
     = Inr (u16 ''Hi Al'')
   \<and> createIssue (\<lambda>url d. None)
        \<lparr>currentUser = Some (u16 ''octocat''), currentRepository = Some (u16 ''demo''),
         currentToken = Some (u16 ''ghp_x''), currentTemplate = None,
         issue_title = u16 ''Greeting'', issue_body = u16 ''  Hi {name}  '',
         elements = [text_input (u16 ''name'') (u16 ''Al'') False],
         issue_draft = None\<rparr>
     = Some ([ShowLoading (u16 ''Creating issue...''),
              Fetch createIssue_endpoint
                (IssueData (u16 ''Greeting'') (u16 ''Hi Al'') (u16 ''ghp_x'') (u16 ''octocat'')
                   (u16 ''demo'') []),
              Fetch createIssueCompat_endpoint
                (IssueData (u16 ''Greeting'') (u16 ''Hi Al'') (u16 ''ghp_x'') (u16 ''octocat'')
                   (u16 ''demo'') []),
              ShowResult (ErrorCreatingIssue FetchRejected) Err],
             \<lparr>currentUser = Some (u16 ''octocat''), currentRepository = Some (u16 ''demo''),
              currentToken = Some (u16 ''ghp_x''), currentTemplate = None,
              issue_title = u16 ''Greeting'', issue_body = u16 ''  Hi {name}  '',
              elements = [text_input (u16 ''name'') (u16 ''Al'') False],
              issue_draft = None\<rparr>)
   \<and> u16 ''  Hi Al  '' \<noteq> u16 ''Hi Al''"
  by code_simp

text \<open>
  C9, amended. When no form field is a check box, the two paths build the same field
  values, and the final body of \<^verbatim>\<open>createIssue\<close> is what the preview's substitution
  gives for the trimmed body (the same string, or the same exception); it is what the
  preview computes for the body as typed when that has no white space at its ends. When
  validation passes and the substitution returns, every request that
  \<^verbatim>\<open>createIssue\<close> sends (one, or two when the first is rejected) carries that
  string as the body of the issue.
\<close>

theorem C9_paths_agree:
  assumes "list_all (\<lambda>field. el_type field \<noteq> u16 ''checkbox'') (field_elements (elements a))"
  shows "preview_fieldValues (elements a) = submit_fieldValues (elements a)
         \<and> submit_substitute (trim (issue_body a)) (elements a)
             = preview_substitute (trim (issue_body a)) (elements a)
         \<and> (trim (issue_body a) = issue_body a \<longrightarrow>
              submit_substitute (trim (issue_body a)) (elements a)
                = preview_substitute (issue_body a) (elements a))
         \<and> (truthy (currentUser a) \<and> truthy (currentRepository a) \<and> truthy (currentToken a)
              \<and> trim (issue_title a) \<noteq> [] \<and> trim (issue_body a) \<noteq> []
              \<and> list_all (\<lambda>field. trim (el_value field) \<noteq> []) (required_field_elements (elements a))
              \<and> preview_substitute (trim (issue_body a)) (elements a) = Inr processedMarkdown \<longrightarrow>
             (\<exists>effects a'. createIssue net a = Some (effects, a')
                \<and> (sent_bodies effects = [processedMarkdown]
                     \<or> sent_bodies effects = [processedMarkdown, processedMarkdown])))"
proof -
  have eq: "preview_fieldValues (elements a) = submit_fieldValues (elements a)"
    unfolding preview_fieldValues_def submit_fieldValues_def
    using assms by (intro foldl_agree) (simp add: list_all_iff)
  then have sub: "submit_substitute body (elements a) = preview_substitute body (elements a)" for body
    by (simp add: preview_substitute_def submit_substitute_def)
  have sent: "\<exists>effects a'. createIssue net a = Some (effects, a')
                \<and> (sent_bodies effects = [processedMarkdown]
                     \<or> sent_bodies effects = [processedMarkdown, processedMarkdown])"
    if conn: "truthy (currentUser a) \<and> truthy (currentRepository a) \<and> truthy (currentToken a)"
      and t: "trim (issue_title a) \<noteq> []" and b: "trim (issue_body a) \<noteq> []"
      and req: "list_all (\<lambda>field. trim (el_value field) \<noteq> []) (required_field_elements (elements a))"
      and pm: "preview_substitute (trim (issue_body a)) (elements a) = Inr processedMarkdown"
  proof -
    from req have "find (\<lambda>field. trim (el_value field) = []) (required_field_elements (elements a)) = None"
      by (simp add: find_None_iff list_all_iff)
    with conn t b have c: "createIssue net a = submit_issue net a (trim (issue_title a)) (trim (issue_body a))"
      by (simp add: createIssue_def)
    from pm sub have fb: "submit_substitute (trim (issue_body a)) (elements a) = Inr processedMarkdown"
      by simp
    obtain effects a' where s: "send_issue net a (trim (issue_title a)) processedMarkdown = (effects, a')"
      by (cases "send_issue net a (trim (issue_title a)) processedMarkdown")
    with send_issue_bodies [of net a "trim (issue_title a)" processedMarkdown]
    have "sent_bodies effects = [processedMarkdown]
          \<or> sent_bodies effects = [processedMarkdown, processedMarkdown]"
      by simp
    then have "sent_bodies (ShowLoading (u16 ''Creating issue...'') # effects) = [processedMarkdown]
          \<or> sent_bodies (ShowLoading (u16 ''Creating issue...'') # effects)
             = [processedMarkdown, processedMarkdown]"
      by (simp add: sent_bodies_def)
    with c fb s show ?thesis by (simp add: submit_issue_def)
  qed
  from eq sub sent show ?thesis by simp
qed

theorem C9_paths_agree_witness:
  "list_all (\<lambda>field. el_type field \<noteq> u16 ''checkbox'')
     (field_elements (elements
        \<lparr>currentUser = Some (u16 ''octocat''), currentRepository = Some (u16 ''demo''),
         currentToken = Some (u16 ''ghp_x''), currentTemplate = Some [u16 ''bug''],
         issue_title = u16 ''Greeting'', issue_body = u16 ''  {name}: {priority}  '',
         elements = [text_input (u16 ''name'') (u16 ''Alice'') True,
                     text_input (u16 ''priority'') (u16 ''High'') False],
         issue_draft = None\<rparr>))
   \<and> preview_substitute (u16 ''{name}: {priority}'')
       [text_input (u16 ''name'') (u16 ''Alice'') True,
        text_input (u16 ''priority'') (u16 ''High'') False]
     = Inr (u16 ''Alice: High'')
   \<and> submit_substitute (u16 ''{name}: {priority}'')
       [text_input (u16 ''name'') (u16 ''Alice'') True,
        text_input (u16 ''priority'') (u16 ''High'') False]
     = Inr (u16 ''Alice: High'')
   \<and> (\<exists>effects a'.
        createIssue (\<lambda>url d. None)
          \<lparr>currentUser = Some (u16 ''octocat''), currentRepository = Some (u16 ''demo''),
           currentToken = Some (u16 ''ghp_x''), currentTemplate = Some [u16 ''bug''],
           issue_title = u16 ''Greeting'', issue_body = u16 ''  {name}: {priority}  '',
           elements = [text_input (u16 ''name'') (u16 ''Alice'') True,
                       text_input (u16 ''priority'') (u16 ''High'') False],
           issue_draft = None\<rparr>
          = Some (effects, a')
        \<and> (sent_bodies effects = [u16 ''Alice: High'']
             \<or> sent_bodies effects = [u16 ''Alice: High'', u16 ''Alice: High'']))"
proof -
  let ?a = "\<lparr>currentUser = Some (u16 ''octocat''), currentRepository = Some (u16 ''demo''),
         currentToken = Some (u16 ''ghp_x''), currentTemplate = Some [u16 ''bug''],
         issue_title = u16 ''Greeting'', issue_body = u16 ''  {name}: {priority}  '',
         elements = [text_input (u16 ''name'') (u16 ''Alice'') True,
                     text_input (u16 ''priority'') (u16 ''High'') False],
         issue_draft = None\<rparr>"
  have h: "list_all (\<lambda>field. el_type field \<noteq> u16 ''checkbox'') (field_elements (elements ?a))"
    by code_simp
  have tb: "trim (issue_body ?a) = u16 ''{name}: {priority}''"
    and els: "elements ?a = [text_input (u16 ''name'') (u16 ''Alice'') True,
                            text_input (u16 ''priority'') (u16 ''High'') False]"
    by code_simp+
  have pm: "preview_substitute (u16 ''{name}: {priority}'')
       [text_input (u16 ''name'') (u16 ''Alice'') True,
        text_input (u16 ''priority'') (u16 ''High'') False]
     = Inr (u16 ''Alice: High'')"
    by code_simp
  have v: "truthy (currentUser ?a) \<and> truthy (currentRepository ?a) \<and> truthy (currentToken ?a)
           \<and> trim (issue_title ?a) \<noteq> [] \<and> trim (issue_body ?a) \<noteq> []
           \<and> list_all (\<lambda>field. trim (el_value field) \<noteq> []) (required_field_elements (elements ?a))"
    by code_simp
  note C9_paths_agree [OF h, of "u16 ''Alice: High''" "\<lambda>url d. None"]
  with h v pm show ?thesis
    by (simp only: tb els simp_thms)
qed

subsection \<open>Validation\<close>

text \<open>
  C10. When the trimmed title or the trimmed body is empty, or a required field is blank,
  \<^verbatim>\<open>createIssue\<close> shows an error message, at most moves the focus, and returns: it
  shows no loading message, substitutes nothing, sends no request, and leaves the form,
  the connection and the draft as they were.
\<close>

theorem C10_validation_atomic:
  assumes "trim (issue_title a) = [] \<or> trim (issue_body a) = []
           \<or> (\<exists>field \<in> set (required_field_elements (elements a)). trim (el_value field) = [])"
  shows "\<exists>msg focus. createIssue net a = Some (ShowResult (Text msg) Err # focus, a)
           \<and> (focus = [] \<or> (\<exists>i. focus = [Focus i]))"
proof (cases "truthy (currentUser a) \<and> truthy (currentRepository a) \<and> truthy (currentToken a)")
  case False
  then show ?thesis by (simp add: createIssue_def)
next
  case True
  show ?thesis
  proof (cases "trim (issue_title a) = []")
    case t: True
    with True show ?thesis by (simp add: createIssue_def)
  next
    case t: False
    show ?thesis
    proof (cases "trim (issue_body a) = []")
      case b: True
      with True t show ?thesis by (simp add: createIssue_def)
    next
      case b: False
      with assms t have "\<exists>field \<in> set (required_field_elements (elements a)). trim (el_value field) = []"
        by simp
      then obtain field where
        "find (\<lambda>field. trim (el_value field) = []) (required_field_elements (elements a)) = Some field"
        by (cases "find (\<lambda>field. trim (el_value field) = []) (required_field_elements (elements a))")
           (auto simp: find_None_iff)
      with True t b show ?thesis by (simp add: createIssue_def)
    qed
  qed
qed

theorem C10_validation_atomic_witness:
  "(\<exists>field \<in> set (required_field_elements (elements
        \<lparr>currentUser = Some (u16 ''octocat''), currentRepository = Some (u16 ''demo''),
         currentToken = Some (u16 ''ghp_x''), currentTemplate = Some [u16 ''bug''],
         issue_title = u16 ''Crash'', issue_body = u16 ''Steps: {steps}'',
         elements = [text_input (u16 ''steps'') (u16 ''   '') True],
         issue_draft = Some (u16 ''saved'')\<rparr>)).
      trim (el_value field) = [])
   \<and> (\<exists>msg focus.
        createIssue (\<lambda>url d. None)
          \<lparr>currentUser = Some (u16 ''octocat''), currentRepository = Some (u16 ''demo''),
           currentToken = Some (u16 ''ghp_x''), currentTemplate = Some [u16 ''bug''],
           issue_title = u16 ''Crash'', issue_body = u16 ''Steps: {steps}'',
           elements = [text_input (u16 ''steps'') (u16 ''   '') True],
           issue_draft = Some (u16 ''saved'')\<rparr>
        = Some (ShowResult (Text msg) Err # focus,
           \<lparr>currentUser = Some (u16 ''octocat''), currentRepository = Some (u16 ''demo''),
            currentToken = Some (u16 ''ghp_x''), currentTemplate = Some [u16 ''bug''],
            issue_title = u16 ''Crash'', issue_body = u16 ''Steps: {steps}'',
            elements = [text_input (u16 ''steps'') (u16 ''   '') True],
            issue_draft = Some (u16 ''saved'')\<rparr>)
        \<and> (focus = [] \<or> (\<exists>i. focus = [Focus i])))
   \<and> createIssue (\<lambda>url d. None)
        \<lparr>currentUser = Some (u16 ''octocat''), currentRepository = Some (u16 ''demo''),
         currentToken = Some (u16 ''ghp_x''), currentTemplate = Some [u16 ''bug''],
         issue_title = u16 ''Crash'', issue_body = u16 ''Steps: {steps}'',
         elements = [text_input (u16 ''steps'') (u16 ''   '') True],
         issue_draft = Some (u16 ''saved'')\<rparr>
      = Some ([ShowResult (Text (u16 ''Please fill required field: steps'')) Err,
          Focus (u16 ''field-steps'')],
         \<lparr>currentUser = Some (u16 ''octocat''), currentRepository = Some (u16 ''demo''),
          currentToken = Some (u16 ''ghp_x''), currentTemplate = Some [u16 ''bug''],
          issue_title = u16 ''Crash'', issue_body = u16 ''Steps: {steps}'',
          elements = [text_input (u16 ''steps'') (u16 ''   '') True],
          issue_draft = Some (u16 ''saved'')\<rparr>)"
proof -
  let ?a = "\<lparr>currentUser = Some (u16 ''octocat''), currentRepository = Some (u16 ''demo''),
         currentToken = Some (u16 ''ghp_x''), currentTemplate = Some [u16 ''bug''],
         issue_title = u16 ''Crash'', issue_body = u16 ''Steps: {steps}'',
         elements = [text_input (u16 ''steps'') (u16 ''   '') True],
         issue_draft = Some (u16 ''saved'')\<rparr>"
  have h: "\<exists>field \<in> set (required_field_elements (elements ?a)). trim (el_value field) = []"
    by code_simp
  then have "trim (issue_title ?a) = [] \<or> trim (issue_body ?a) = []
           \<or> (\<exists>field \<in> set (required_field_elements (elements ?a)). trim (el_value field) = [])"
    by (intro disjI2)
  note C10_validation_atomic [OF this, of "\<lambda>url d. None"]
  moreover have "createIssue (\<lambda>url d. None) ?a
      = Some ([ShowResult (Text (u16 ''Please fill required field: steps'')) Err,
               Focus (u16 ''field-steps'')], ?a)"
    by code_simp
  ultimately show ?thesis using h by (intro conjI)
qed

subsection \<open>The renderer never fails\<close>






declare m.simps(11) [simp del]





lemma replace_from_no_match:
  assumes "\<And>k pc. match_here fl r pc (drop k s) = None"
  shows "replace_from fl r tmpl pre s = s"
  using assms
proof (induction s arbitrary: pre)
  case Nil
  from Nil [where k = 0] show ?case by (subst replace_from.simps) simp
next
  case (Cons x xs)
  have "\<And>k pc. match_here fl r pc (drop k xs) = None"
    using Cons.prems [where k = "Suc _"] by simp
  from Cons.IH [OF this] Cons.prems [where k = 0] show ?case
    by (subst replace_from.simps) simp
qed















lemma weight_same:
  assumes "\<And>k. map_of cs' k = map_of cs k"
  shows "weight c ps cs' = weight c ps cs"
proof -
  have "part_text cs' p = part_text cs p" for p
    using assms by (cases p) (simp_all add: cap_text_def)
  then have "part_text cs' = part_text cs" by (intro ext)
  then show ?thesis by (simp add: weight_def)
qed



lemma map_of_filter_self:
  "map_of (filter (\<lambda>(j, _). j \<noteq> i) cs) i = None"
  by (induction cs) auto




















subsection \<open>The list wrapper\<close>

lemma wrap_regex: "RegExp (rx ''(<li>.*<%/li>)'') = Inr wrap_pattern"
  by code_simp

lemma m_star_dot:
  "m fl (Rep ZeroOrMore True Dot) (MState pc (x # xs) cs) =
     (if dotAll fl \<or> \<not> LineTerminator x
      then m fl (Rep ZeroOrMore True Dot) (MState (Some x) xs cs) @ [MState pc (x # xs) cs]
      else [MState pc (x # xs) cs])"
  by (subst m.simps(11)) (simp add: reset_def advances_def)

lemma m_star_dot_Nil:
  "m fl (Rep ZeroOrMore True Dot) (MState pc [] cs) = [MState pc [] cs]"
  by (subst m.simps(11)) (simp add: reset_def)

lemma star_then_literal:
  assumes "dotAll fl" and "q \<noteq> []"
  shows "case find_last q R of
           None \<Rightarrow> concat (map (m fl (seq_of (map Lit q))) (m fl (Rep ZeroOrMore True Dot) (MState pc R cs))) = []
         | Some k \<Rightarrow> \<exists>more. concat (map (m fl (seq_of (map Lit q))) (m fl (Rep ZeroOrMore True Dot) (MState pc R cs)))
                        = MState (Some (last q)) (drop (k + length q) R) cs # more"
proof (induction R arbitrary: pc)
  case Nil
  with assms show ?case by (simp add: m_star_dot_Nil m_literal starts_with_def)
next
  case (Cons x xs)
  let ?f = "m fl (seq_of (map Lit q))"
  let ?inner = "concat (map ?f (m fl (Rep ZeroOrMore True Dot) (MState (Some x) xs cs)))"
  have step: "concat (map ?f (m fl (Rep ZeroOrMore True Dot) (MState pc (x # xs) cs)))
              = ?inner @ ?f (MState pc (x # xs) cs)"
    using assms(1) by (simp add: m_star_dot)
  have here: "?f (MState pc (x # xs) cs) =
              (if starts_with q (x # xs) then [MState (Some (last q)) (drop (length q) (x # xs)) cs] else [])"
    using assms(2) by (simp only: m_literal if_False)
  show ?case
  proof (cases "find_last q xs")
    case None
    with Cons [of "Some x"] have "?inner = []" by (simp only: option.case)
    with None show ?thesis
      by (simp only: step here find_last.simps option.case append_Nil split: if_splits) simp
  next
    case (Some k)
    with Cons [of "Some x"] obtain more where "?inner = MState (Some (last q)) (drop (k + length q) xs) cs # more"
      by (auto simp only: option.case)
    with Some show ?thesis
      by (simp only: step find_last.simps option.case) simp
  qed
qed


lemma find_last_starts:
  "find_last q R = Some k \<Longrightarrow> starts_with q (drop k R)"
proof (induction R arbitrary: k)
  case Nil
  then show ?case by simp
next
  case (Cons x xs)
  then show ?case by (auto split: option.splits if_splits)
qed

lemma find_last_bound:
  assumes "find_last q R = Some k" and "q \<noteq> []"
  shows "k + length q \<le> length R"
proof -
  from find_last_starts [OF assms(1)] have "length q \<le> length (drop k R)"
    by (rule starts_with_length)
  with assms(2) show ?thesis by (cases "k \<le> length R") auto
qed

lemma find_last_drop:
  "find_last q (drop j R) = Some i \<Longrightarrow> \<exists>k. find_last q R = Some k \<and> j + i \<le> k"
proof (induction R arbitrary: j)
  case Nil
  then show ?case by simp
next
  case (Cons x xs)
  show ?case
  proof (cases j)
    case 0
    with Cons.prems show ?thesis by simp
  next
    case (Suc j')
    with Cons.prems have "find_last q (drop j' xs) = Some i" by simp
    from Cons.IH [OF this] Suc show ?thesis by auto
  qed
qed

lemma m_literal_then:
  "m fl (foldr Seq (map Lit p) r) (MState pc s cs) =
     (if starts_with p s
      then m fl r (MState (if p = [] then pc else Some (last p)) (drop (length p) s) cs)
      else [])"
proof (induction p arbitrary: pc s)
  case Nil
  then show ?case by (simp add: starts_with_def)
next
  case (Cons c p)
  note IH = Cons.IH
  show ?case
  proof (cases s)
    case Nil
    then show ?thesis by (simp add: starts_with_def)
  next
    case (Cons x xs)
    show ?thesis
    proof (cases "x = c")
      case True
      with Cons show ?thesis
        using IH [of "Some c" xs] by (simp add: starts_with_def)
    next
      case False
      with Cons show ?thesis by (simp add: starts_with_def)
    qed
  qed
qed

lemma m_Seq_Eps: "m fl (Seq r Eps) st = m fl r st"
proof -
  have "concat (map (m fl Eps) xs) = xs" for xs
    by (induction xs) simp_all
  then show ?thesis by simp
qed

lemma match_here_wrap:
  "match_here flags_gs wrap_pattern pc s =
     (if starts_with (u16 ''<li>'') s then
        (case find_last (u16 ''</li>'') (drop 4 s) of
           None \<Rightarrow> None
         | Some k \<Rightarrow> Some (k + 9, [(1, take (k + 9) s)]))
      else None)"
proof (cases "starts_with (u16 ''<li>'') s")
  case False
  then show ?thesis
    by (simp add: match_here_def wrap_pattern_def m_literal_then)
next
  case True
  have l4: "length (u16 ''<li>'') = 4" and l5: "length (u16 ''</li>'') = 5"
    and ne: "u16 ''</li>'' \<noteq> []" and da: "dotAll flags_gs"
    by (simp_all add: u16_def flags_gs_def)
  let ?st = "MState pc s []"
  let ?inner = "concat (map (m flags_gs (seq_of (map Lit (u16 ''</li>''))))
                  (m flags_gs (Rep ZeroOrMore True Dot) (MState (Some (last (u16 ''<li>''))) (drop 4 s) [])))"
  have "m flags_gs wrap_pattern ?st
        = map (capture 1 ?st)
            (m flags_gs (foldr Seq (map Lit (u16 ''<li>''))
               (Seq (Rep ZeroOrMore True Dot) (seq_of (map Lit (u16 ''</li>''))))) ?st)"
    unfolding wrap_pattern_def by (simp only: m_Seq_Eps m.simps(9))
  also have "m flags_gs (foldr Seq (map Lit (u16 ''<li>''))
               (Seq (Rep ZeroOrMore True Dot) (seq_of (map Lit (u16 ''</li>''))))) ?st
             = m flags_gs (Seq (Rep ZeroOrMore True Dot) (seq_of (map Lit (u16 ''</li>''))))
                 (MState (Some (last (u16 ''<li>''))) (drop 4 s) [])"
    using True by (simp only: m_literal_then l4 if_True) (simp add: u16_def)
  also have "\<dots> = ?inner"
    by (simp only: m.simps(7))
  finally have run: "m flags_gs wrap_pattern ?st = map (capture 1 ?st) ?inner" .
  show ?thesis
  proof (cases "find_last (u16 ''</li>'') (drop 4 s)")
    case None
    with star_then_literal [OF da ne, where R = "drop 4 s" and pc = "Some (last (u16 ''<li>''))" and cs = "[]"]
    have "?inner = []" by (simp only: option.case)
    with True None run show ?thesis by (simp add: match_here_def)
  next
    case (Some k)
    with star_then_literal [OF da ne, where R = "drop 4 s" and pc = "Some (last (u16 ''<li>''))" and cs = "[]"]
    obtain more where i: "?inner = MState (Some (last (u16 ''</li>''))) (drop (k + 5) (drop 4 s)) [] # more"
      by (auto simp only: option.case l5)
    from find_last_bound [OF Some ne] have "k + 9 \<le> length s" by (simp add: l5)
    then have len: "length s - (length s - (k + 9)) = k + 9" by simp
    from True Some run i show ?thesis
      by (simp add: match_here_def capture_def consumed_def len add.commute)
  qed
qed


lemma no_wrap_match:
  assumes "find_last (u16 ''</li>'') (drop j t) = None" and "j \<le> 4"
  shows "match_here flags_gs wrap_pattern pc (drop k t) = None"
proof (cases "find_last (u16 ''</li>'') (drop 4 (drop k t))")
  case None
  then show ?thesis by (simp add: match_here_wrap)
next
  case (Some i)
  from assms(2) have "drop 4 (drop k t) = drop (k + 4 - j) (drop j t)"
    by (simp add: add.commute)
  with Some have "find_last (u16 ''</li>'') (drop (k + 4 - j) (drop j t)) = Some i"
    by simp
  from find_last_drop [OF this] assms(1) show ?thesis by simp
qed

lemma wrap_tail_unchanged:
  assumes "find_last (u16 ''</li>'') (drop j t) = None" and "j \<le> 4"
  shows "replace_from flags_gs wrap_pattern tmpl pre t = t"
  by (rule replace_from_no_match) (rule no_wrap_match [OF assms])

lemma groups_of_wrap: "groups_of wrap_pattern = [1]"
  by (simp add: wrap_pattern_def u16_def groups_of_literal)

lemma subst_ul:
  "GetSubstitution (u16 ''<ul>$1</ul>'') (Suc 0) matched pre post [(Suc 0, X)]
   = u16 ''<ul>'' @ X @ u16 ''</ul>''"
  by (simp add: u16_def is_digit_def digit_val_def cap_text_def)

lemma js_replace_wrap:
  "replace_from flags_gs wrap_pattern (u16 ''<ul>$1</ul>'') pre s = wrap_span s"
proof (induction s arbitrary: pre)
  case Nil
  show ?case
    by (subst replace_from.simps) (simp add: match_here_wrap starts_with_def u16_def)
next
  case (Cons x xs)
  show ?case
  proof (cases "starts_with (u16 ''<li>'') (x # xs)")
    case False
    with Cons show ?thesis
      by (subst replace_from.simps) (simp add: match_here_wrap)
  next
    case True
    show ?thesis
    proof (cases "find_last (u16 ''</li>'') (drop 4 (x # xs))")
      case None
      then have "find_last (u16 ''</li>'') (drop 3 xs) = None" by simp
      then have "replace_from flags_gs wrap_pattern (u16 ''<ul>$1</ul>'') (x # pre) xs = xs"
        by (rule wrap_tail_unchanged) simp
      with True None show ?thesis
        by (subst replace_from.simps) (simp add: match_here_wrap)
    next
      case (Some k)
      have "find_last (u16 ''</li>'') (drop (k + 9) (x # xs)) = None"
      proof (cases "find_last (u16 ''</li>'') (drop (k + 9) (x # xs))")
        case None
        then show ?thesis .
      next
        case (Some i)
        have "k + 5 + 4 = k + 9" by simp
        then have "drop (k + 9) (x # xs) = drop (k + 5) (drop 4 (x # xs))"
          by (simp only: drop_drop)
        with Some have "find_last (u16 ''</li>'') (drop (k + 5) (drop 4 (x # xs))) = Some i"
          by simp
        from find_last_drop [OF this] \<open>find_last (u16 ''</li>'') (drop 4 (x # xs)) = Some k\<close>
        show ?thesis by simp
      qed
      then have "find_last (u16 ''</li>'') (drop 0 (drop (k + 9) (x # xs))) = None"
        by (simp only: drop_0)
      then have tail: "replace_from flags_gs wrap_pattern (u16 ''<ul>$1</ul>'') pre' (drop (k + 9) (x # xs))
                       = drop (k + 9) (x # xs)" for pre'
        by (rule wrap_tail_unchanged) simp
      from True Some show ?thesis
        by (subst replace_from.simps)
           (simp add: match_here_wrap groups_of_wrap subst_ul tail del: drop_Suc_Cons take_Suc_Cons)
    qed
  qed
qed

lemma wrap_rule_is_wrap_span: "rewrite [wrap_rule] s = Inr (wrap_span s)"
  by (simp add: wrap_rule_def wrap_regex js_replace_def js_replace_wrap)

text \<open>
  C5, amended. Rendering \<^verbatim>\<open>- one\n- two\<close> gives
  \<^verbatim>\<open><p><ul><li>one</li><br><li>two</li></ul></p>\<close>: the two items, separated by
  the line break of the newline, inside exactly one \<^verbatim>\<open><ul>\<close> and one
  \<^verbatim>\<open></ul>\<close>. On every text the wrapper puts one such pair around the span from
  the first \<^verbatim>\<open><li>\<close> to the last \<^verbatim>\<open></li>\<close> and leaves the rest as it
  is.
\<close>

theorem C5_list_wrapping:
  "markdown_html (u16 ''- one\<newline>- two'')
     = Inr (u16 ''<p><ul><li>one</li><br><li>two</li></ul></p>'')
   \<and> occurrences (u16 ''<ul>'') (u16 ''<p><ul><li>one</li><br><li>two</li></ul></p>'') = 1
   \<and> occurrences (u16 ''</ul>'') (u16 ''<p><ul><li>one</li><br><li>two</li></ul></p>'') = 1
   \<and> contains (u16 ''<ul><li>one</li><br><li>two</li></ul>'')
       (u16 ''<p><ul><li>one</li><br><li>two</li></ul></p>'')
   \<and> rewrite [wrap_rule] html = Inr (wrap_span html)"
proof -
  have "markdown_html (u16 ''- one\<newline>- two'')
     = Inr (u16 ''<p><ul><li>one</li><br><li>two</li></ul></p>'')
   \<and> occurrences (u16 ''<ul>'') (u16 ''<p><ul><li>one</li><br><li>two</li></ul></p>'') = 1
   \<and> occurrences (u16 ''</ul>'') (u16 ''<p><ul><li>one</li><br><li>two</li></ul></p>'') = 1
   \<and> contains (u16 ''<ul><li>one</li><br><li>two</li></ul>'')
       (u16 ''<p><ul><li>one</li><br><li>two</li></ul></p>'')"
    by code_simp
  with wrap_rule_is_wrap_span [of html] show ?thesis
    by (simp only: simp_thms)
qed

end
